theory Spec2Isabelle
  imports Complex_Main "HOL-Library.AList"
begin

section \<open>Configuration (config/env.js)\<close>

text \<open>
  The exported \<open>config\<close> object, restricted to the fields the transcription and translation
  modules read. \<open>features.cacheTranslations\<close> is true unless the environment says
  \<open>CACHE_TRANSLATIONS=false\<close>; \<open>translation.service\<close> defaults to \<open>libretranslate\<close>.
\<close>

record config =
  translation_service :: string
  translation_googleApiKey :: "string option"
  deepgram_apiKey :: "string option"
  features_transcription :: bool
  features_translation :: bool
  features_cacheTranslations :: bool

section \<open>The in-memory cache (node-cache, as constructed in translation/translator.js)\<close>

text \<open>
  \<open>const translationCache = new NodeCache({ stdTTL: 3600, checkperiod: 600 })\<close>.
  The package is a dependency of the repository; the model follows its \<open>get\<close>, \<open>set\<close>,
  \<open>flushAll\<close> and the periodic check for the options given here. An entry is the stored
  value with its expiry instant \<open>t\<close> in milliseconds (\<open>0\<close>: never expires). The constructor
  passes no \<open>maxKeys\<close>, so the package's capacity test (\<open>maxKeys > -1\<close>) is never taken and
  \<open>set\<close> always stores.
\<close>

type_synonym cache_entry = "string \<times> nat"

record NodeCache =
  stdTTL :: nat
  nc_data :: "(string \<times> cache_entry) list"
  nc_hits :: nat
  nc_misses :: nat

definition translationCache_new :: NodeCache where
  "translationCache_new = \<lparr>stdTTL = 3600, nc_data = [], nc_hits = 0, nc_misses = 0\<rparr>"

text \<open>An entry is expired when \<open>t \<noteq> 0\<close> and \<open>t < Date.now()\<close>.\<close>

definition nc_expired :: "nat \<Rightarrow> cache_entry \<Rightarrow> bool" where
  "nc_expired clock e = (snd e \<noteq> 0 \<and> snd e < clock)"

text \<open>\<open>get(key)\<close>: a live entry counts a hit; an expired one is deleted and counts a miss.\<close>

definition nc_get :: "nat \<Rightarrow> NodeCache \<Rightarrow> string \<Rightarrow> string option \<times> NodeCache" where
  "nc_get clock c key =
     (case map_of (nc_data c) key of
        None \<Rightarrow> (None, c\<lparr>nc_misses := nc_misses c + 1\<rparr>)
      | Some e \<Rightarrow>
          if nc_expired clock e
          then (None, c\<lparr>nc_data := AList.delete key (nc_data c), nc_misses := nc_misses c + 1\<rparr>)
          else (Some (fst e), c\<lparr>nc_hits := nc_hits c + 1\<rparr>))"

text \<open>\<open>set(key, value)\<close> with the standard TTL (seconds, multiplied by 1000).\<close>

definition nc_set :: "nat \<Rightarrow> NodeCache \<Rightarrow> string \<Rightarrow> string \<Rightarrow> NodeCache" where
  "nc_set clock c key val =
     c\<lparr>nc_data := AList.update key (val, if stdTTL c = 0 then 0 else clock + stdTTL c * 1000) (nc_data c)\<rparr>"

text \<open>The periodic check (every \<open>checkperiod\<close> seconds) deletes the expired entries.\<close>

definition nc_checkData :: "nat \<Rightarrow> NodeCache \<Rightarrow> NodeCache" where
  "nc_checkData clock c = c\<lparr>nc_data := filter (\<lambda>kv. \<not> nc_expired clock (snd kv)) (nc_data c)\<rparr>"

definition nc_flushAll :: "NodeCache \<Rightarrow> NodeCache" where
  "nc_flushAll c = c\<lparr>nc_data := [], nc_hits := 0, nc_misses := 0\<rparr>"

text \<open>\<open>keys()\<close> lists every stored key; the live ones are those not yet expired.\<close>

definition nc_keys :: "NodeCache \<Rightarrow> string list" where
  "nc_keys c = map fst (nc_data c)"

definition nc_live_keys :: "nat \<Rightarrow> NodeCache \<Rightarrow> string list" where
  "nc_live_keys clock c = map fst (filter (\<lambda>kv. \<not> nc_expired clock (snd kv)) (nc_data c))"

section \<open>The durable store (db/transcripts.js, db/userSettings.js, database schema)\<close>

record transcript_row =
  tr_id :: nat
  tr_meeting_id :: string
  tr_speaker_id :: string
  tr_speaker_name :: string
  tr_original_text :: string
  tr_detected_language :: string
  tr_confidence :: real
  tr_timestamp_ms :: nat

record translation_row =
  tl_transcript_id :: nat
  tl_target_language :: string
  tl_translated_text :: string
  tl_translation_service :: string

text \<open>
  The tables the modules touch. A row id stands for the UUID the database generates
  (\<open>next_id\<close> is the generator). \<open>store_faults\<close> is the environment's script for the store:
  each request consumes one entry, \<open>True\<close> meaning that this request comes back with an
  error (network, permission, outage, a constraint not modelled here); an empty script
  means every request is answered.
\<close>

record store =
  meeting_transcripts :: "transcript_row list"
  meeting_translations :: "translation_row list"
  meeting_participants :: "(string \<times> string) list"
  user_settings :: "(string \<times> string option) list"
  next_id :: nat
  store_faults :: "bool list"

definition store_request :: "store \<Rightarrow> bool \<times> store" where
  "store_request d =
     (case store_faults d of
        [] \<Rightarrow> (True, d)
      | f # fs \<Rightarrow> (\<not> f, d\<lparr>store_faults := fs\<rparr>))"

text \<open>
  \<open>saveTranslation\<close>: insert into \<open>meeting_translations\<close>. The schema has
  \<open>UNIQUE(transcript_id, target_language)\<close> (error 23505, ignored) and a foreign key on
  the transcript; every error ends in \<open>return null\<close>.
\<close>

definition saveTranslation ::
  "store \<Rightarrow> nat \<Rightarrow> string \<Rightarrow> string \<Rightarrow> string \<Rightarrow> translation_row option \<times> store" where
  "saveTranslation d transcriptId targetLanguage translatedText service =
     (case store_request d of
        (False, d1) \<Rightarrow> (None, d1)
      | (True, d1) \<Rightarrow>
          if \<exists>r \<in> set (meeting_translations d1).
               tl_transcript_id r = transcriptId \<and> tl_target_language r = targetLanguage
          then (None, d1)
          else if transcriptId \<notin> set (map tr_id (meeting_transcripts d1))
          then (None, d1)
          else
            let row = \<lparr>tl_transcript_id = transcriptId, tl_target_language = targetLanguage,
                       tl_translated_text = translatedText, tl_translation_service = service\<rparr>
            in (Some row, d1\<lparr>meeting_translations := meeting_translations d1 @ [row]\<rparr>))"

text \<open>
  \<open>getTranslation\<close>: \<open>.single()\<close> on the rows of this transcript and language; no row
  (PGRST116) and every other error give \<open>null\<close>.
\<close>

definition getTranslation :: "store \<Rightarrow> nat \<Rightarrow> string \<Rightarrow> string option \<times> store" where
  "getTranslation d transcriptId targetLanguage =
     (case store_request d of
        (False, d1) \<Rightarrow> (None, d1)
      | (True, d1) \<Rightarrow>
          (case filter (\<lambda>r. tl_transcript_id r = transcriptId \<and> tl_target_language r = targetLanguage)
                  (meeting_translations d1) of
             [r] \<Rightarrow> (Some (tl_translated_text r), d1)
           | _ \<Rightarrow> (None, d1)))"

section \<open>Outbound messages (livekit/dataChannel.js)\<close>

text \<open>
  The caption object the agent hands to the delivery functions: \<open>translatedText\<close> and
  \<open>targetLanguage\<close> are absent (\<open>undefined\<close>) unless the caller sets them.
\<close>

record caption =
  cp_meetingId :: string
  cp_speakerId :: string
  cp_speakerName :: string
  cp_originalText :: string
  cp_originalLanguage :: string
  cp_translatedText :: "string option"
  cp_targetLanguage :: "string option"
  cp_isFinal :: bool
  cp_confidence :: real

text \<open>The wire message (\<open>type: 'caption'\<close>) and the system message (\<open>type: 'system'\<close>).\<close>

record caption_message =
  messageId :: nat
  meetingId :: string
  speakerId :: string
  speakerName :: string
  originalText :: string
  originalLanguage :: string
  translatedText :: "string option"
  targetLanguage :: "string option"
  isFinal :: bool
  confidence :: real
  timestamp :: nat

record system_message =
  sys_messageId :: nat
  sys_message :: string
  sys_timestamp :: nat

datatype payload = Caption caption_message | System system_message

text \<open>
  One call of \<open>room.localParticipant.publishData(data, RELIABLE, destination?)\<close>: the room,
  the encoded message, the destination identities (\<open>None\<close>: everyone in the room) and
  whether the transport accepted it (a rejected call throws, and the sender logs it).
\<close>

record packet =
  pk_room :: string
  pk_payload :: payload
  pk_destination :: "string list option"
  pk_accepted :: bool

section \<open>Sessions (livekit/agent.js, stt/deepgram.js)\<close>

text \<open>
  What \<open>createTranscriptionSession\<close> returns is a pair of closures over one recognizer
  connection; the options it was created with are all it holds.
\<close>

record deepgram_session =
  ds_meetingId :: string
  ds_language :: "string option"

record session =
  room :: string
  ss_meetingId :: string
  transcriptionSessions :: "(string \<times> deepgram_session) list"
  participantLanguages :: "(string \<times> string) list"

section \<open>The process state\<close>

text \<open>One request to the translation endpoint (the body axios posts).\<close>

record request =
  rq_service :: string
  rq_q :: string
  rq_source :: "string option"
  rq_target :: string

text \<open>
  The module-level state of the process together with its environment:
  \<^item> \<open>clock\<close> is \<open>Date.now()\<close> in milliseconds;
  \<^item> \<open>translation_api\<close> is the answer of the translation endpoint to a request, \<open>None\<close> when
    the HTTP call fails or exceeds its 5000 ms timeout; \<open>api_requests\<close> records the calls made;
  \<^item> \<open>published\<close> records the \<open>publishData\<close> calls; \<open>transport_faults\<close> scripts the
    transport as \<open>store_faults\<close> scripts the store;
  \<^item> \<open>uuid_supply\<close> stands for \<open>uuidv4()\<close>;
  \<^item> \<open>deepgramClient\<close> tells whether the recognizer client is initialised, and
    \<open>live_connections\<close> records the recognizer connections opened (\<open>listen.live\<close>);
  \<^item> \<open>activeSessions\<close> is the agent's \<open>Map\<close> from meeting id to session.
  Logging is not part of the state.
\<close>

record world =
  cfg :: config
  clock :: nat
  translationCache :: NodeCache
  supabase :: store
  translation_api :: "request \<Rightarrow> string option"
  api_requests :: "request list"
  published :: "packet list"
  transport_faults :: "bool list"
  uuid_supply :: nat
  deepgramClient :: bool
  live_connections :: "deepgram_session list"
  activeSessions :: "(string \<times> session) list"

section \<open>Translation service (translation/translator.js)\<close>

text \<open>
  The module the agent imports as \<open>translation/translator.js\<close>; in the source tree its
  text follows the configuration module in \<open>src/config/env.js\<close>.
\<close>

datatype translate_error = LibreTranslateFailed | GoogleFailed | GoogleKeyMissing

text \<open>JavaScript truthiness of a string, and of a string that may be \<open>undefined\<close>/\<open>null\<close>.\<close>

definition js_truthy :: "string \<Rightarrow> bool" where
  "js_truthy s = (s \<noteq> [])"

definition js_truthy_opt :: "string option \<Rightarrow> bool" where
  "js_truthy_opt x = (case x of None \<Rightarrow> False | Some s \<Rightarrow> js_truthy s)"

definition axios_post :: "world \<Rightarrow> request \<Rightarrow> string option \<times> world" where
  "axios_post w rq = (translation_api w rq, w\<lparr>api_requests := api_requests w @ [rq]\<rparr>)"

definition translateWithLibreTranslate ::
  "world \<Rightarrow> string \<Rightarrow> string \<Rightarrow> string \<Rightarrow> (translate_error + string) \<times> world" where
  "translateWithLibreTranslate w text sourceLang targetLang =
     (case axios_post w \<lparr>rq_service = ''libretranslate'', rq_q = text,
                         rq_source = Some sourceLang, rq_target = targetLang\<rparr> of
        (None, w1) \<Rightarrow> (Inl LibreTranslateFailed, w1)
      | (Some translated, w1) \<Rightarrow> (Inr translated, w1))"

definition translateWithGoogle ::
  "world \<Rightarrow> string \<Rightarrow> string \<Rightarrow> string \<Rightarrow> (translate_error + string) \<times> world" where
  "translateWithGoogle w text sourceLang targetLang =
     (if \<not> js_truthy_opt (translation_googleApiKey (cfg w)) then (Inl GoogleKeyMissing, w)
      else
        case axios_post w \<lparr>rq_service = ''google'', rq_q = text,
                           rq_source = (if sourceLang = ''auto'' then None else Some sourceLang),
                           rq_target = targetLang\<rparr> of
          (None, w1) \<Rightarrow> (Inl GoogleFailed, w1)
        | (Some translated, w1) \<Rightarrow> (Inr translated, w1))"

text \<open>The cache key: \<open>`${text}_${sourceLang}_${targetLang}`\<close>.\<close>

definition cacheKey :: "string \<Rightarrow> string \<Rightarrow> string \<Rightarrow> string" where
  "cacheKey text sourceLang targetLang = text @ ''_'' @ sourceLang @ ''_'' @ targetLang"

text \<open>
  The lookup block of \<open>translateText\<close> (\<open>if (config.features.cacheTranslations) {...}\<close>):
  the memory cache first, then the store when a transcript id is given; a store hit is
  copied into the memory cache. \<open>if (cached)\<close> and \<open>if (dbCached)\<close> are truthiness tests.
\<close>

definition translateText_lookup ::
  "world \<Rightarrow> string \<Rightarrow> string \<Rightarrow> nat option \<Rightarrow> string option \<times> world" where
  "translateText_lookup w key targetLang transcriptId =
     (if \<not> features_cacheTranslations (cfg w) then (None, w)
      else
        case nc_get (clock w) (translationCache w) key of
          (cached, c1) \<Rightarrow>
            let w1 = w\<lparr>translationCache := c1\<rparr> in
            if js_truthy_opt cached then (cached, w1)
            else
              case transcriptId of
                None \<Rightarrow> (None, w1)
              | Some tid \<Rightarrow>
                  (case getTranslation (supabase w1) tid targetLang of
                     (dbCached, d1) \<Rightarrow>
                       let w2 = w1\<lparr>supabase := d1\<rparr> in
                       if js_truthy_opt dbCached
                       then (dbCached,
                             w2\<lparr>translationCache :=
                                  nc_set (clock w2) (translationCache w2) key (the dbCached)\<rparr>)
                       else (None, w2)))"

text \<open>The call of the configured service (\<open>google\<close>, otherwise LibreTranslate).\<close>

definition translate_via_service ::
  "world \<Rightarrow> string \<Rightarrow> string \<Rightarrow> string \<Rightarrow> (translate_error + string) \<times> world" where
  "translate_via_service w text sourceLang targetLang =
     (if translation_service (cfg w) = ''google''
      then translateWithGoogle w text sourceLang targetLang
      else translateWithLibreTranslate w text sourceLang targetLang)"

text \<open>
  The \<open>try\<close> block of \<open>translateText\<close>: on success the translation is cached and, with a
  transcript id, saved; the \<open>catch\<close> returns the original text.
\<close>

definition translateText_perform ::
  "world \<Rightarrow> string \<Rightarrow> string \<Rightarrow> string \<Rightarrow> nat option \<Rightarrow> string \<times> world" where
  "translateText_perform w text sourceLang targetLang transcriptId =
     (case translate_via_service w text sourceLang targetLang of
        (Inl err, w1) \<Rightarrow> (text, w1)
      | (Inr translated, w1) \<Rightarrow>
          if features_cacheTranslations (cfg w1)
          then
            let w2 = w1\<lparr>translationCache :=
                          nc_set (clock w1) (translationCache w1)
                            (cacheKey text sourceLang targetLang) translated\<rparr>
            in (case transcriptId of
                  None \<Rightarrow> (translated, w2)
                | Some tid \<Rightarrow>
                    (case saveTranslation (supabase w2) tid targetLang translated
                            (translation_service (cfg w2)) of
                       (saved, d1) \<Rightarrow> (translated, w2\<lparr>supabase := d1\<rparr>)))
          else (translated, w1))"

definition translateText ::
  "world \<Rightarrow> string \<Rightarrow> string \<Rightarrow> string \<Rightarrow> nat option \<Rightarrow> string \<times> world" where
  "translateText w text sourceLang targetLang transcriptId =
     (if sourceLang = targetLang then (text, w)
      else
        case translateText_lookup w (cacheKey text sourceLang targetLang) targetLang transcriptId of
          (Some cached, w1) \<Rightarrow> (cached, w1)
        | (None, w1) \<Rightarrow> translateText_perform w1 text sourceLang targetLang transcriptId)"

section \<open>Durable store: transcripts and language preferences\<close>

text \<open>
  \<open>db/transcripts.js\<close> and the module imported as \<open>db/userSettings.js\<close> (in the source
  tree its text follows the logger in \<open>src/utils/logger.js\<close>).
\<close>

text \<open>
  \<open>saveTranscript\<close>: insert into \<open>meeting_transcripts\<close> and return the row, or \<open>null\<close>
  when the store reports an error.
\<close>

definition saveTranscript ::
  "store \<Rightarrow> nat \<Rightarrow> string \<Rightarrow> string \<Rightarrow> string \<Rightarrow> string \<Rightarrow> string \<Rightarrow> real
     \<Rightarrow> transcript_row option \<times> store" where
  "saveTranscript d now meeting speaker speakerName' text language conf =
     (case store_request d of
        (False, d1) \<Rightarrow> (None, d1)
      | (True, d1) \<Rightarrow>
          let row = \<lparr>tr_id = next_id d1, tr_meeting_id = meeting, tr_speaker_id = speaker,
                     tr_speaker_name = speakerName', tr_original_text = text,
                     tr_detected_language = language, tr_confidence = conf,
                     tr_timestamp_ms = now\<rparr>
          in (Some row, d1\<lparr>meeting_transcripts := meeting_transcripts d1 @ [row],
                            next_id := next_id d1 + 1\<rparr>))"

text \<open>JavaScript \<open>a || b\<close> on a string that may be absent.\<close>

definition js_or :: "string option \<Rightarrow> string \<Rightarrow> string" where
  "js_or a b = (if js_truthy_opt a then the a else b)"

text \<open>
  \<open>getMeetingLanguages\<close>: the participants of the meeting, then the settings of those
  users; the \<open>Map\<close> keeps one entry per user id in order of first insertion, with
  \<open>'en'\<close> for a user without a preference. Any error of the store ends in \<open>return []\<close>.
\<close>

definition preferred_language_of :: "(string \<times> string option) list \<Rightarrow> string \<Rightarrow> string" where
  "preferred_language_of settings user =
     (case List.find (\<lambda>s. fst s = user) settings of
        None \<Rightarrow> ''en''
      | Some s \<Rightarrow> js_or (snd s) ''en'')"

definition getMeetingLanguages :: "store \<Rightarrow> string \<Rightarrow> (string \<times> string) list \<times> store" where
  "getMeetingLanguages d meeting =
     (case store_request d of
        (False, d1) \<Rightarrow> ([], d1)
      | (True, d1) \<Rightarrow>
          let participants = map snd (filter (\<lambda>p. fst p = meeting) (meeting_participants d1)) in
          if participants = [] then ([], d1)
          else
            (case store_request d1 of
               (False, d2) \<Rightarrow> ([], d2)
             | (True, d2) \<Rightarrow>
                 let settings = filter (\<lambda>s. fst s \<in> set participants) (user_settings d2) in
                 (fold (\<lambda>p languageMap. AList.update p (preferred_language_of settings p) languageMap)
                    participants [], d2)))"

section \<open>Caption delivery (livekit/dataChannel.js)\<close>

definition uuidv4 :: "world \<Rightarrow> nat \<times> world" where
  "uuidv4 w = (uuid_supply w, w\<lparr>uuid_supply := uuid_supply w + 1\<rparr>)"

text \<open>
  \<open>publishData\<close>: the call is recorded with its outcome; the result tells whether it
  returned (\<open>True\<close>) or threw.
\<close>

definition publishData :: "world \<Rightarrow> string \<Rightarrow> payload \<Rightarrow> string list option \<Rightarrow> bool \<times> world" where
  "publishData w rm data destination =
     (case transport_faults w of
        [] \<Rightarrow>
          (True, w\<lparr>published := published w @
                     [\<lparr>pk_room = rm, pk_payload = data, pk_destination = destination,
                       pk_accepted = True\<rparr>]\<rparr>)
      | f # fs \<Rightarrow>
          (\<not> f, w\<lparr>transport_faults := fs,
                   published := published w @
                     [\<lparr>pk_room = rm, pk_payload = data, pk_destination = destination,
                       pk_accepted = \<not> f\<rparr>]\<rparr>))"

definition sendCaptionToParticipant :: "world \<Rightarrow> string \<Rightarrow> string \<Rightarrow> caption \<Rightarrow> bool \<times> world" where
  "sendCaptionToParticipant w rm participantIdentity c =
     (case uuidv4 w of
        (mid, w1) \<Rightarrow>
          publishData w1 rm
            (Caption \<lparr>messageId = mid, meetingId = cp_meetingId c, speakerId = cp_speakerId c,
                      speakerName = cp_speakerName c, originalText = cp_originalText c,
                      originalLanguage = cp_originalLanguage c,
                      translatedText = cp_translatedText c,
                      targetLanguage = cp_targetLanguage c,
                      isFinal = cp_isFinal c, confidence = cp_confidence c,
                      timestamp = clock w1\<rparr>)
            (Some [participantIdentity]))"

definition broadcastCaption :: "world \<Rightarrow> string \<Rightarrow> caption \<Rightarrow> bool \<times> world" where
  "broadcastCaption w rm c =
     (case uuidv4 w of
        (mid, w1) \<Rightarrow>
          publishData w1 rm
            (Caption \<lparr>messageId = mid, meetingId = cp_meetingId c, speakerId = cp_speakerId c,
                      speakerName = cp_speakerName c, originalText = cp_originalText c,
                      originalLanguage = cp_originalLanguage c,
                      translatedText = Some (js_or (cp_translatedText c) (cp_originalText c)),
                      targetLanguage = Some (js_or (cp_targetLanguage c) (cp_originalLanguage c)),
                      isFinal = cp_isFinal c, confidence = cp_confidence c,
                      timestamp = clock w1\<rparr>)
            None)"

text \<open>One element of the list handed to \<open>sendTranslatedCaptions\<close>.\<close>

record participant_caption =
  participantIdentity :: string
  pc_language :: string
  pc_translatedText :: string

fun sendTranslatedCaptions_loop :: "world \<Rightarrow> string \<Rightarrow> caption \<Rightarrow> participant_caption list \<Rightarrow> world" where
  "sendTranslatedCaptions_loop w rm c [] = w"
| "sendTranslatedCaptions_loop w rm c (p # ps) =
     sendTranslatedCaptions_loop
       (snd (sendCaptionToParticipant w rm (participantIdentity p)
               (c\<lparr>cp_targetLanguage := Some (pc_language p),
                   cp_translatedText := Some (js_or (Some (pc_translatedText p)) (cp_originalText c))\<rparr>)))
       rm c ps"

definition sendTranslatedCaptions ::
  "world \<Rightarrow> string \<Rightarrow> caption \<Rightarrow> participant_caption list \<Rightarrow> bool \<times> world" where
  "sendTranslatedCaptions w rm c participantLangs =
     (True, sendTranslatedCaptions_loop w rm c participantLangs)"

definition sendSystemMessage :: "world \<Rightarrow> string \<Rightarrow> string \<Rightarrow> string list option \<Rightarrow> bool \<times> world" where
  "sendSystemMessage w rm msg participantIdentities =
     (case uuidv4 w of
        (mid, w1) \<Rightarrow>
          publishData w1 rm
            (System \<lparr>sys_messageId = mid, sys_message = msg, sys_timestamp = clock w1\<rparr>)
            (case participantIdentities of
               None \<Rightarrow> None
             | Some ids \<Rightarrow> if ids \<noteq> [] then Some ids else None))"

section \<open>Speech-to-text sessions (stt/deepgram.js)\<close>

text \<open>
  The recognizer's result event (\<open>data.channel.alternatives\<close>, \<open>data.is_final\<close>) and the
  events of one live connection.
\<close>

record dg_alternative =
  alt_transcript :: string
  alt_confidence :: "real option"

record dg_data =
  alternatives :: "dg_alternative list"
  is_final :: "bool option"

datatype connection_event = Open | Transcript dg_data | Error string | Close

text \<open>The transcript object handed to the callbacks.\<close>

record transcript =
  ts_text :: string
  ts_confidence :: real
  ts_language :: string
  ts_isFinal :: bool

definition initializeDeepgram :: "world \<Rightarrow> bool \<times> world" where
  "initializeDeepgram w =
     (if \<not> js_truthy_opt (deepgram_apiKey (cfg w)) then (False, w)
      else (True, w\<lparr>deepgramClient := True\<rparr>))"

text \<open>
  \<open>createTranscriptionSession\<close>: initialise the client when needed, open one live
  connection and return the interface to it. (Exceptions of the recognizer's SDK itself
  are not modelled.)
\<close>

definition createTranscriptionSession ::
  "world \<Rightarrow> deepgram_session \<Rightarrow> (string + deepgram_session) \<times> world" where
  "createTranscriptionSession w options =
     (case (if \<not> deepgramClient w then initializeDeepgram w else (True, w)) of
        (False, w1) \<Rightarrow> (Inl ''Deepgram not initialized'', w1)
      | (True, w1) \<Rightarrow> (Inr options, w1\<lparr>live_connections := live_connections w1 @ [options]\<rparr>))"

text \<open>
  The handlers \<open>createTranscriptionSession\<close> installs on the connection, with the two
  callbacks it was given (either may be absent). \<open>Open\<close>, \<open>Error\<close> and \<open>Close\<close> only write
  to the log. A result without a first alternative or with an empty transcript is
  ignored; \<open>data.is_final || false\<close> selects the callback. The callbacks are started
  without being awaited; the model runs each to completion.
\<close>

definition connection_on ::
  "deepgram_session \<Rightarrow> (world \<Rightarrow> transcript \<Rightarrow> world) option
     \<Rightarrow> (world \<Rightarrow> transcript \<Rightarrow> world) option \<Rightarrow> world \<Rightarrow> connection_event \<Rightarrow> world" where
  "connection_on options onTranscript onFinalTranscript w ev =
     (case ev of
        Open \<Rightarrow> w
      | Error msg \<Rightarrow> w
      | Close \<Rightarrow> w
      | Transcript data \<Rightarrow>
          (case alternatives data of
             [] \<Rightarrow> w
           | alt # rest \<Rightarrow>
               if \<not> js_truthy (alt_transcript alt) then w
               else
                 let final = (is_final data = Some True);
                     conf = (case alt_confidence alt of None \<Rightarrow> 0 | Some c \<Rightarrow> c);
                     language = js_or (ds_language options) ''en''
                 in if final \<and> onFinalTranscript \<noteq> None
                    then (the onFinalTranscript) w
                           \<lparr>ts_text = alt_transcript alt, ts_confidence = conf,
                            ts_language = language, ts_isFinal = True\<rparr>
                    else if \<not> final \<and> onTranscript \<noteq> None
                    then (the onTranscript) w
                           \<lparr>ts_text = alt_transcript alt, ts_confidence = conf,
                            ts_language = language, ts_isFinal = False\<rparr>
                    else w))"

definition processFinalTranscript ::
  "world \<Rightarrow> string \<Rightarrow> string \<Rightarrow> string \<Rightarrow> transcript \<Rightarrow> transcript_row option \<times> world" where
  "processFinalTranscript w meeting speaker speakerName' t =
     (case saveTranscript (supabase w) (clock w) meeting speaker speakerName'
             (ts_text t) (ts_language t) (ts_confidence t) of
        (saved, d1) \<Rightarrow> (saved, w\<lparr>supabase := d1\<rparr>))"

section \<open>The agent (livekit/agent.js)\<close>

text \<open>\<open>handleInterimTranscript\<close>: broadcast only.\<close>

definition handleInterimTranscript :: "world \<Rightarrow> session \<Rightarrow> string \<Rightarrow> string \<Rightarrow> transcript \<Rightarrow> world" where
  "handleInterimTranscript w s speaker speakerName' t =
     snd (broadcastCaption w (room s)
            \<lparr>cp_meetingId = ss_meetingId s, cp_speakerId = speaker, cp_speakerName = speakerName',
             cp_originalText = ts_text t, cp_originalLanguage = ts_language t,
             cp_translatedText = None, cp_targetLanguage = None,
             cp_isFinal = False, cp_confidence = ts_confidence t\<rparr>)"

text \<open>The \<open>for\<close> loop of \<open>handleFinalTranscript\<close>: one \<open>translateText\<close> per participant, in order.\<close>

fun translate_for_participants ::
  "world \<Rightarrow> transcript \<Rightarrow> nat option \<Rightarrow> (string \<times> string) list \<Rightarrow> participant_caption list
     \<Rightarrow> participant_caption list \<times> world" where
  "translate_for_participants w t savedId [] captionsWithTranslations = (captionsWithTranslations, w)"
| "translate_for_participants w t savedId ((userId, language) # rest) captionsWithTranslations =
     (case translateText w (ts_text t) (ts_language t) language savedId of
        (translated, w1) \<Rightarrow>
          translate_for_participants w1 t savedId rest
            (captionsWithTranslations @
               [\<lparr>participantIdentity = userId, pc_language = language,
                 pc_translatedText = translated\<rparr>]))"

text \<open>
  \<open>handleFinalTranscript\<close>: save the transcript, read the participants' languages, then
  either broadcast the original (translation disabled or no participant language) or
  translate for each participant and send each one its caption.
\<close>

definition handleFinalTranscript :: "world \<Rightarrow> session \<Rightarrow> string \<Rightarrow> string \<Rightarrow> transcript \<Rightarrow> world" where
  "handleFinalTranscript w s speaker speakerName' t =
     (case processFinalTranscript w (ss_meetingId s) speaker speakerName' t of
        (saved, w1) \<Rightarrow>
          (case getMeetingLanguages (supabase w1) (ss_meetingId s) of
             (participantLangs, d2) \<Rightarrow>
               let w2 = w1\<lparr>supabase := d2\<rparr>;
                   c = \<lparr>cp_meetingId = ss_meetingId s, cp_speakerId = speaker,
                        cp_speakerName = speakerName', cp_originalText = ts_text t,
                        cp_originalLanguage = ts_language t,
                        cp_translatedText = None, cp_targetLanguage = None,
                        cp_isFinal = True, cp_confidence = ts_confidence t\<rparr>
               in if \<not> features_translation (cfg w2) \<or> participantLangs = []
                  then snd (broadcastCaption w2 (room s) c)
                  else
                    (case translate_for_participants w2 t (map_option tr_id saved) participantLangs [] of
                       (captionsWithTranslations, w3) \<Rightarrow>
                         snd (sendTranslatedCaptions w3 (room s) c captionsWithTranslations))))"

text \<open>
  \<open>handleAudioTrack\<close>: open a recognizer session for the participant with the two
  handlers above as callbacks and store it in the meeting's session; a failure is logged.
\<close>

record participant =
  identity :: string
  name :: string
  audio_tracks :: nat

definition handleAudioTrack :: "world \<Rightarrow> session \<Rightarrow> participant \<Rightarrow> world" where
  "handleAudioTrack w s p =
     (case createTranscriptionSession w \<lparr>ds_meetingId = ss_meetingId s, ds_language = Some ''en''\<rparr> of
        (Inl err, w1) \<Rightarrow> w1
      | (Inr deepgramSession, w1) \<Rightarrow>
          w1\<lparr>activeSessions :=
               AList.map_entry (ss_meetingId s)
                 (\<lambda>s'. s'\<lparr>transcriptionSessions :=
                             AList.update (identity p) deepgramSession (transcriptionSessions s')\<rparr>)
                 (activeSessions w1)\<rparr>)"

text \<open>The events of a participant's recognizer connection, as the agent wires them.\<close>

definition agent_connection_on ::
  "session \<Rightarrow> participant \<Rightarrow> world \<Rightarrow> connection_event \<Rightarrow> world" where
  "agent_connection_on s p =
     connection_on \<lparr>ds_meetingId = ss_meetingId s, ds_language = Some ''en''\<rparr>
       (Some (\<lambda>w t. handleInterimTranscript w s (identity p) (name p) t))
       (Some (\<lambda>w t. handleFinalTranscript w s (identity p) (name p) t))"

text \<open>\<open>subscribeToParticipant\<close>: one \<open>handleAudioTrack\<close> per published audio track.\<close>

definition subscribeToParticipant :: "world \<Rightarrow> session \<Rightarrow> participant \<Rightarrow> world" where
  "subscribeToParticipant w s p = ((\<lambda>w'. handleAudioTrack w' s p) ^^ audio_tracks p) w"

text \<open>
  The result object \<open>{ success, message }\<close> and the outcome of \<open>room.connect\<close>: an error
  message, or the participants already in the room.
\<close>

record op_result =
  success :: bool
  message :: string

datatype connect_outcome = ConnectFailed string | Connected "participant list"

text \<open>
  \<open>startTranscription\<close>. The room object is represented by the name of the room it is
  connected to. The event handlers registered with \<open>room.on\<close> run on later events and
  are not part of this call.
\<close>

definition startTranscription ::
  "world \<Rightarrow> string \<Rightarrow> string \<Rightarrow> connect_outcome \<Rightarrow> op_result \<times> world" where
  "startTranscription w meeting livekitRoomName connect =
     (if \<not> features_transcription (cfg w)
      then (\<lparr>success = False, message = ''Transcription disabled''\<rparr>, w)
      else if meeting \<in> set (map fst (activeSessions w))
      then (\<lparr>success = False, message = ''Already transcribing''\<rparr>, w)
      else
        case connect of
          ConnectFailed msg \<Rightarrow> (\<lparr>success = False, message = msg\<rparr>, w)
        | Connected participants \<Rightarrow>
            let w1 = snd (sendSystemMessage w livekitRoomName ''Live transcription started'' None);
                s = \<lparr>room = livekitRoomName, ss_meetingId = meeting,
                     transcriptionSessions = [], participantLanguages = []\<rparr>;
                w2 = w1\<lparr>activeSessions := AList.update meeting s (activeSessions w1)\<rparr>;
                w3 = fold (\<lambda>p w'. subscribeToParticipant w' s p) participants w2
            in (\<lparr>success = True, message = ''Transcription started''\<rparr>, w3))"

text \<open>\<open>getActiveSessions\<close> and \<open>isTranscribing\<close>.\<close>

definition getActiveSessions :: "world \<Rightarrow> string list" where
  "getActiveSessions w = map fst (activeSessions w)"

definition isTranscribing :: "world \<Rightarrow> string \<Rightarrow> bool" where
  "isTranscribing w meeting = (meeting \<in> set (map fst (activeSessions w)))"

section \<open>Auxiliary notions for the statements\<close>

text \<open>
  The text normalization as the specification words it (trim, then collapse each run of
  whitespace to one space). The code has no such function; this definition follows the
  specification only, to compare it with \<open>cacheKey\<close>.
\<close>

definition spec_is_space :: "char \<Rightarrow> bool" where
  "spec_is_space c = (c = CHR '' '' \<or> c = CHR 0x09 \<or> c = CHR 0x0A \<or> c = CHR 0x0D)"

fun spec_collapse :: "string \<Rightarrow> string" where
  "spec_collapse (c # d # cs) =
     (if spec_is_space c \<and> spec_is_space d then spec_collapse (d # cs)
      else (if spec_is_space c then CHR '' '' else c) # spec_collapse (d # cs))"
| "spec_collapse cs = cs"

definition spec_trim :: "string \<Rightarrow> string" where
  "spec_trim s = rev (dropWhile spec_is_space (rev (dropWhile spec_is_space s)))"

definition spec_normalize :: "string \<Rightarrow> string" where
  "spec_normalize s = spec_collapse (spec_trim s)"

text \<open>
  No stored translation for this request: no entry under its key in the memory cache and,
  when a transcript id is given, no row for that transcript and target language.
\<close>

definition uncached :: "world \<Rightarrow> string \<Rightarrow> string \<Rightarrow> string \<Rightarrow> nat option \<Rightarrow> bool" where
  "uncached w text sourceLang targetLang transcriptId =
     (map_of (nc_data (translationCache w)) (cacheKey text sourceLang targetLang) = None \<and>
      (\<forall>r \<in> set (meeting_translations (supabase w)).
          transcriptId = Some (tl_transcript_id r) \<longrightarrow> tl_target_language r \<noteq> targetLang))"

text \<open>
  What a lookup can find for a request. \<open>cached_text\<close> is the value \<open>get\<close> returns from the
  memory cache at the given time (nothing for a missing or expired entry);
  \<open>stored_translation\<close> is what \<open>getTranslation\<close> returns when the store answers (the text
  of the single row of the transcript and language). A text found is used only when it is
  non-empty. \<open>cached_only w text source target id V\<close> says that every text a lookup for
  the request can use lies in \<open>V\<close>; with \<open>V = {}\<close> the lookup misses and the request goes
  to the translation service. For the id of a transcript that is about to be saved, the
  part about the store holds as long as no translation row refers to that id yet.
\<close>

definition cached_text :: "nat \<Rightarrow> NodeCache \<Rightarrow> string \<Rightarrow> string option" where
  "cached_text clk c key =
     (case map_of (nc_data c) key of
        None \<Rightarrow> None
      | Some e \<Rightarrow> if nc_expired clk e then None else Some (fst e))"

definition stored_translation :: "store \<Rightarrow> nat \<Rightarrow> string \<Rightarrow> string option" where
  "stored_translation d tid lang =
     (case filter (\<lambda>r. tl_transcript_id r = tid \<and> tl_target_language r = lang)
             (meeting_translations d) of
        [r] \<Rightarrow> Some (tl_translated_text r)
      | _ \<Rightarrow> None)"

definition usable_within :: "string option \<Rightarrow> string set \<Rightarrow> bool" where
  "usable_within x V = (case x of None \<Rightarrow> True | Some s \<Rightarrow> s = [] \<or> s \<in> V)"

definition cached_only ::
  "world \<Rightarrow> string \<Rightarrow> string \<Rightarrow> string \<Rightarrow> nat option \<Rightarrow> string set \<Rightarrow> bool" where
  "cached_only w text sourceLang targetLang transcriptId V =
     (usable_within (cached_text (clock w) (translationCache w)
                       (cacheKey text sourceLang targetLang)) V \<and>
      (\<forall>tid. transcriptId = Some tid \<longrightarrow>
         usable_within (stored_translation (supabase w) tid targetLang) V))"

text \<open>What one \<open>publishData\<close> call delivers: the destination and the translated text.\<close>

definition delivered_text :: "packet \<Rightarrow> string list option \<times> string option" where
  "delivered_text pk =
     (pk_destination pk, case pk_payload pk of Caption m \<Rightarrow> translatedText m | System m \<Rightarrow> None)"

section \<open>Example states\<close>

text \<open>
  The scenario of the specification: listeners B (\<open>ta\<close>) and C (\<open>en\<close>) in meeting \<open>m1\<close>; the
  translation endpoint answers for \<open>ta\<close>, returns an empty text for \<open>de\<close> and fails for
  every other language.
\<close>

definition example_config :: config where
  "example_config =
     \<lparr>translation_service = ''libretranslate'', translation_googleApiKey = None,
      deepgram_apiKey = Some ''dg-key'',
      features_transcription = True, features_translation = True,
      features_cacheTranslations = True\<rparr>"

definition example_store :: store where
  "example_store =
     \<lparr>meeting_transcripts = [], meeting_translations = [],
      meeting_participants = [(''m1'', ''B''), (''m1'', ''C'')],
      user_settings = [(''B'', Some ''ta''), (''C'', Some ''en'')],
      next_id = 0, store_faults = []\<rparr>"

definition example_api :: "request \<Rightarrow> string option" where
  "example_api rq =
     (if rq_target rq = ''ta'' then Some ''Anaivarukkum vanakkam''
      else if rq_target rq = ''de'' then Some []
      else None)"

definition example_world :: world where
  "example_world =
     \<lparr>cfg = example_config, clock = 1000, translationCache = translationCache_new,
      supabase = example_store, translation_api = example_api, api_requests = [],
      published = [], transport_faults = [], uuid_supply = 0, deepgramClient = False,
      live_connections = [], activeSessions = []\<rparr>"

text \<open>The same state with \<open>CACHE_TRANSLATIONS=false\<close>.\<close>

definition example_world_nocache :: world where
  "example_world_nocache =
     example_world\<lparr>cfg := example_config\<lparr>features_cacheTranslations := False\<rparr>\<rparr>"

text \<open>
  Meeting \<open>m1\<close> in room \<open>room-m1\<close>, speaker A, an interim and a final recognizer result,
  and a state in which the store answers the first request and fails the second.
\<close>

definition example_session :: session where
  "example_session =
     \<lparr>room = ''room-m1'', ss_meetingId = ''m1'', transcriptionSessions = [],
      participantLanguages = []\<rparr>"

definition example_speaker :: participant where
  "example_speaker = \<lparr>identity = ''A'', name = ''Alice'', audio_tracks = 1\<rparr>"

definition example_interim :: dg_data where
  "example_interim =
     \<lparr>alternatives = [\<lparr>alt_transcript = ''Hello every'', alt_confidence = Some 0.8\<rparr>],
      is_final = Some False\<rparr>"

definition example_final :: transcript where
  "example_final =
     \<lparr>ts_text = ''Hello everyone'', ts_confidence = 0.95, ts_language = ''en'',
      ts_isFinal = True\<rparr>"

definition example_world_store_down :: world where
  "example_world_store_down =
     example_world\<lparr>supabase := example_store\<lparr>store_faults := [False, True]\<rparr>\<rparr>"

text \<open>
  Meeting \<open>m2\<close> in room \<open>room-m2\<close> with listeners B (\<open>hi\<close>), C (\<open>ta\<close>) and D (\<open>de\<close>), and
  the same state with \<open>ENABLE_TRANSLATION\<close> not set to \<open>true\<close>.
\<close>

definition example_store_fanout :: store where
  "example_store_fanout =
     \<lparr>meeting_transcripts = [], meeting_translations = [],
      meeting_participants = [(''m2'', ''B''), (''m2'', ''C''), (''m2'', ''D'')],
      user_settings = [(''B'', Some ''hi''), (''C'', Some ''ta''), (''D'', Some ''de'')],
      next_id = 0, store_faults = []\<rparr>"

definition example_world_fanout :: world where
  "example_world_fanout = example_world\<lparr>supabase := example_store_fanout\<rparr>"

definition example_world_translation_off :: world where
  "example_world_translation_off =
     example_world_fanout\<lparr>cfg := example_config\<lparr>features_translation := False\<rparr>\<rparr>"

definition example_session_m2 :: session where
  "example_session_m2 =
     \<lparr>room = ''room-m2'', ss_meetingId = ''m2'', transcriptionSessions = [],
      participantLanguages = []\<rparr>"

section \<open>Properties of the translation service\<close>

subsection \<open>The service call\<close>

lemma cacheKey_target_inj: "cacheKey t s l1 = cacheKey t s l2 \<longleftrightarrow> l1 = l2"
  by (simp add: cacheKey_def)

lemma translate_via_service_frame:
  "cfg w' = cfg w \<Longrightarrow> translation_api w' = translation_api w \<Longrightarrow>
   fst (translate_via_service w' t s l) = fst (translate_via_service w t s l)"
  by (simp add: translate_via_service_def translateWithGoogle_def translateWithLibreTranslate_def
      axios_post_def split: option.splits)

lemma translate_via_service_state:
  "cfg (snd (translate_via_service w t s l)) = cfg w \<and>
   translation_api (snd (translate_via_service w t s l)) = translation_api w \<and>
   translationCache (snd (translate_via_service w t s l)) = translationCache w \<and>
   supabase (snd (translate_via_service w t s l)) = supabase w \<and>
   clock (snd (translate_via_service w t s l)) = clock w"
  by (simp add: translate_via_service_def translateWithGoogle_def translateWithLibreTranslate_def
      axios_post_def split: option.splits)

subsection \<open>Cache and store frames\<close>

lemma nc_get_absent:
  "map_of (nc_data c) k = None \<Longrightarrow> nc_get clk c k = (None, c\<lparr>nc_misses := nc_misses c + 1\<rparr>)"
  by (simp add: nc_get_def)

lemma nc_get_data_other:
  "k' \<noteq> k \<Longrightarrow> map_of (nc_data (snd (nc_get clk c k))) k' = map_of (nc_data c) k'"
  by (simp add: nc_get_def delete_conv' split: option.splits)

lemma nc_get_stdTTL: "stdTTL (snd (nc_get clk c k)) = stdTTL c"
  by (simp add: nc_get_def split: option.splits)

lemma nc_set_data:
  "map_of (nc_data (nc_set clk c k v)) =
     (map_of (nc_data c))(k \<mapsto> (v, if stdTTL c = 0 then 0 else clk + stdTTL c * 1000))"
  by (simp add: nc_set_def update_conv')

lemma getTranslation_tables:
  "meeting_translations (snd (getTranslation d t l)) = meeting_translations d \<and>
   meeting_transcripts (snd (getTranslation d t l)) = meeting_transcripts d"
  by (simp add: getTranslation_def store_request_def split: list.splits bool.splits)

lemma getTranslation_absent:
  "\<forall>r \<in> set (meeting_translations d). tl_transcript_id r = t \<longrightarrow> tl_target_language r \<noteq> l \<Longrightarrow>
   fst (getTranslation d t l) = None"
proof -
  assume a: "\<forall>r \<in> set (meeting_translations d). tl_transcript_id r = t \<longrightarrow> tl_target_language r \<noteq> l"
  have "filter (\<lambda>r. tl_transcript_id r = t \<and> tl_target_language r = l) (meeting_translations d) = []"
    using a by (auto simp: filter_empty_conv)
  moreover have "meeting_translations (snd (store_request d)) = meeting_translations d"
    by (simp add: store_request_def split: list.splits)
  ultimately show ?thesis
    by (cases "store_request d") (auto simp: getTranslation_def split: bool.splits)
qed

lemma saveTranslation_rows:
  "r \<in> set (meeting_translations (snd (saveTranslation d t l txt svc))) \<Longrightarrow>
   r \<in> set (meeting_translations d) \<or> (tl_transcript_id r = t \<and> tl_target_language r = l)"
  by (auto simp: saveTranslation_def store_request_def Let_def split: list.splits bool.splits if_splits)

subsection \<open>translateText: environment and frames\<close>

lemma lookup_env:
  "cfg (snd (translateText_lookup w k l tid)) = cfg w \<and>
   translation_api (snd (translateText_lookup w k l tid)) = translation_api w \<and>
   api_requests (snd (translateText_lookup w k l tid)) = api_requests w \<and>
   clock (snd (translateText_lookup w k l tid)) = clock w"
  by (simp add: translateText_lookup_def Let_def split: prod.splits option.splits)

lemma lookup_tables:
  "meeting_translations (supabase (snd (translateText_lookup w k l tid))) =
     meeting_translations (supabase w)"
  using getTranslation_tables
  by (auto simp: translateText_lookup_def Let_def split: prod.splits option.splits)
     (metis snd_conv)+

lemma lookup_uncached_miss:
  assumes "uncached w t s l tid"
  shows "fst (translateText_lookup w (cacheKey t s l) l tid) = None \<and>
         uncached (snd (translateText_lookup w (cacheKey t s l) l tid)) t s l tid"
proof (cases "features_cacheTranslations (cfg w)")
  case False
  then show ?thesis using assms by (simp add: translateText_lookup_def)
next
  case True
  have m: "map_of (nc_data (translationCache w)) (cacheKey t s l) = None"
    using assms by (simp add: uncached_def)
  show ?thesis
  proof (cases tid)
    case None
    then show ?thesis using True m assms
      by (simp add: translateText_lookup_def nc_get_absent js_truthy_opt_def uncached_def)
  next
    case (Some i)
    have "\<forall>r \<in> set (meeting_translations (supabase w)). tl_transcript_id r = i \<longrightarrow> tl_target_language r \<noteq> l"
      using assms Some by (auto simp: uncached_def)
    then have g: "fst (getTranslation (supabase w) i l) = None"
      by (rule getTranslation_absent)
    obtain x d1 where gd: "getTranslation (supabase w) i l = (x, d1)" by fastforce
    with g have x: "x = None" by simp
    have "meeting_translations d1 = meeting_translations (supabase w)"
      using getTranslation_tables [of "supabase w" i l] gd by simp
    then show ?thesis using True m assms Some gd x
      by (simp add: translateText_lookup_def nc_get_absent js_truthy_opt_def uncached_def)
  qed
qed

lemma lookup_cache_other:
  assumes "k' \<noteq> k"
  shows "map_of (nc_data (translationCache (snd (translateText_lookup w k l tid)))) k' =
         map_of (nc_data (translationCache w)) k'"
proof -
  obtain x c1 where g: "nc_get (clock w) (translationCache w) k = (x, c1)" by fastforce
  have c1: "map_of (nc_data c1) k' = map_of (nc_data (translationCache w)) k'"
    using nc_get_data_other [OF assms, of "clock w" "translationCache w"] g by simp
  show ?thesis using g c1 assms
    by (simp add: translateText_lookup_def Let_def nc_set_data split: prod.splits option.splits)
qed

lemma lookup_uncached_other:
  assumes "l' \<noteq> l" "uncached w t s l tid"
  shows "uncached (snd (translateText_lookup w (cacheKey t s l') l' tid)) t s l tid"
proof -
  have "cacheKey t s l \<noteq> cacheKey t s l'" using assms(1) by (simp add: cacheKey_target_inj)
  then show ?thesis using assms(2) lookup_cache_other [of "cacheKey t s l" "cacheKey t s l'"] lookup_tables
    by (simp add: uncached_def)
qed

lemma perform_env:
  "cfg (snd (translateText_perform w t s l tid)) = cfg w \<and>
   translation_api (snd (translateText_perform w t s l tid)) = translation_api w \<and>
   clock (snd (translateText_perform w t s l tid)) = clock w"
proof -
  obtain r w1 where a: "translate_via_service w t s l = (r, w1)" by fastforce
  then show ?thesis using translate_via_service_state [of w t s l]
    by (simp add: translateText_perform_def Let_def split: sum.splits option.splits prod.splits)
qed

lemma perform_result:
  "fst (translateText_perform w t s l tid) =
     (case fst (translate_via_service w t s l) of Inl e \<Rightarrow> t | Inr tr \<Rightarrow> tr)"
  by (simp add: translateText_perform_def Let_def split: sum.splits option.splits prod.splits)

lemma perform_uncached_other:
  assumes "l' \<noteq> l" "uncached w t s l tid"
  shows "uncached (snd (translateText_perform w t s l' tid)) t s l tid"
proof -
  obtain r w1 where a: "translate_via_service w t s l' = (r, w1)" by fastforce
  have st: "translationCache w1 = translationCache w" "supabase w1 = supabase w"
    using translate_via_service_state [of w t s l'] a by simp_all
  have k: "cacheKey t s l \<noteq> cacheKey t s l'" using assms(1) by (simp add: cacheKey_target_inj)
  show ?thesis
  proof (cases r)
    case (Inl e)
    then show ?thesis using a st assms(2) by (simp add: translateText_perform_def uncached_def)
  next
    case (Inr tr)
    show ?thesis
    proof (cases "features_cacheTranslations (cfg w1)")
      case False
      then show ?thesis using a Inr st assms(2) by (simp add: translateText_perform_def uncached_def)
    next
      case True
      show ?thesis
      proof (cases tid)
        case None
        then show ?thesis using a Inr st assms(2) True k
          by (simp add: translateText_perform_def uncached_def nc_set_data)
      next
        case (Some i)
        have "\<And>d svc x. x \<in> set (meeting_translations (snd (saveTranslation d i l' tr svc))) \<Longrightarrow>
                x \<in> set (meeting_translations d) \<or> tl_target_language x = l'"
          using saveTranslation_rows by blast
        then show ?thesis using a Inr st assms True k Some
          by (auto simp: translateText_perform_def uncached_def nc_set_data Let_def split: prod.splits)
             (metis snd_conv)+
      qed
    qed
  qed
qed

lemma translateText_env:
  "cfg (snd (translateText w t s l tid)) = cfg w \<and>
   translation_api (snd (translateText w t s l tid)) = translation_api w \<and>
   clock (snd (translateText w t s l tid)) = clock w"
  using lookup_env [of w "cacheKey t s l" l tid]
        perform_env [of "snd (translateText_lookup w (cacheKey t s l) l tid)" t s l tid]
  by (auto simp: translateText_def split: prod.splits option.splits)

lemma translateText_uncached_other:
  assumes "l' \<noteq> l" "uncached w t s l tid"
  shows "uncached (snd (translateText w t s l' tid)) t s l tid"
proof (cases "s = l'")
  case True
  then show ?thesis using assms by (simp add: translateText_def)
next
  case False
  obtain x w1 where a: "translateText_lookup w (cacheKey t s l') l' tid = (x, w1)" by fastforce
  have u: "uncached w1 t s l tid" using lookup_uncached_other [OF assms, of ] a by simp
  show ?thesis
  proof (cases x)
    case None
    then show ?thesis using False a perform_uncached_other [OF assms(1) u]
      by (simp add: translateText_def)
  next
    case (Some c)
    then show ?thesis using False a u by (simp add: translateText_def)
  qed
qed

lemma translateText_uncached_result:
  assumes "s \<noteq> l" "uncached w t s l tid"
  shows "fst (translateText w t s l tid) =
           (case fst (translate_via_service w t s l) of Inl e \<Rightarrow> t | Inr tr \<Rightarrow> tr)"
proof -
  obtain x w1 where a: "translateText_lookup w (cacheKey t s l) l tid = (x, w1)" by fastforce
  have x: "x = None" using lookup_uncached_miss [OF assms(2)] a by simp
  have "cfg w1 = cfg w" "translation_api w1 = translation_api w"
    using lookup_env [of w "cacheKey t s l" l tid] a by simp_all
  then have "fst (translate_via_service w1 t s l) = fst (translate_via_service w t s l)"
    by (rule translate_via_service_frame)
  then show ?thesis using assms(1) a x perform_result [of w1 t s l tid]
    by (simp add: translateText_def)
qed

subsection \<open>Same source and target language\<close>

text \<open>
  C5. A translation request whose source language equals its target language returns the
  input text unchanged and leaves the whole state as it was: the memory cache (its hit
  and miss counters included), the store and the record of provider requests.
\<close>

theorem translateText_same_language:
  "translateText w text lang lang transcriptId = (text, w)"
  by (simp add: translateText_def)

subsection \<open>Cache keys\<close>

text \<open>
  C3, as the code has it: the cache key is built from the text as received. For one
  source and one target language, two texts have the same cache key exactly when they
  are the same string, character for character; nothing is trimmed or collapsed.
\<close>

theorem cacheKey_exact_text:
  "cacheKey text1 sourceLang targetLang = cacheKey text2 sourceLang targetLang \<longleftrightarrow> text1 = text2"
  by (simp add: cacheKey_def)

text \<open>
  C3 as stated fails: two texts that normalize to the same string get different keys.
\<close>

theorem cacheKey_normalization_counterexample:
  "spec_normalize ''Hello  world'' = spec_normalize '' Hello world'' \<and>
   cacheKey ''Hello  world'' ''en'' ''ta'' \<noteq> cacheKey '' Hello world'' ''en'' ''ta''"
  by (simp add: spec_normalize_def spec_trim_def spec_is_space_def cacheKey_def)

subsection \<open>Failed translations\<close>

lemma nc_get_data_subset: "set (nc_data (snd (nc_get clk c k))) \<subseteq> set (nc_data c)"
  by (auto simp: nc_get_def AList.delete_eq split: option.splits)

lemma lookup_miss_cache_subset:
  assumes "fst (translateText_lookup w k l tid) = None"
  shows "set (nc_data (translationCache (snd (translateText_lookup w k l tid)))) \<subseteq>
         set (nc_data (translationCache w))"
proof -
  obtain x c1 where g: "nc_get (clock w) (translationCache w) k = (x, c1)" by fastforce
  have c1: "set (nc_data c1) \<subseteq> set (nc_data (translationCache w))"
    using nc_get_data_subset [of "clock w" "translationCache w" k] g by simp
  show ?thesis using assms g c1
    by (auto simp: translateText_lookup_def Let_def js_truthy_opt_def
        split: prod.splits option.splits if_splits)
qed

text \<open>
  C9. A translation attempt that fails: the request is not answered from the memory cache
  or the store, and the call of the translation service ends in an error (HTTP error,
  timeout, missing key). Then \<open>translateText\<close> returns the original text, the table of
  translations is as before, and the memory cache holds no entry it did not hold before.
\<close>

theorem failed_translation_not_persisted:
  assumes "S \<noteq> L"
    and "fst (translateText_lookup w (cacheKey T S L) L tid) = None"
    and "fst (translate_via_service w T S L) = Inl e"
  shows "fst (translateText w T S L tid) = T \<and>
         meeting_translations (supabase (snd (translateText w T S L tid))) =
           meeting_translations (supabase w) \<and>
         set (nc_data (translationCache (snd (translateText w T S L tid)))) \<subseteq>
           set (nc_data (translationCache w))"
proof -
  obtain x w1 where a: "translateText_lookup w (cacheKey T S L) L tid = (x, w1)" by fastforce
  have x: "x = None" using assms(2) a by simp
  have "cfg w1 = cfg w" "translation_api w1 = translation_api w"
    using lookup_env [of w "cacheKey T S L" L tid] a by simp_all
  then have "fst (translate_via_service w1 T S L) = fst (translate_via_service w T S L)"
    by (rule translate_via_service_frame)
  then obtain w2 where b: "translate_via_service w1 T S L = (Inl e, w2)"
    using assms(3) by (metis prod.collapse)
  have w2: "translationCache w2 = translationCache w1" "supabase w2 = supabase w1"
    using translate_via_service_state [of w1 T S L] b by simp_all
  have r: "translateText w T S L tid = (T, w2)"
    using assms(1) a x b by (simp add: translateText_def translateText_perform_def)
  have "meeting_translations (supabase w1) = meeting_translations (supabase w)"
    using lookup_tables [of w "cacheKey T S L" L tid] a by simp
  moreover have "set (nc_data (translationCache w1)) \<subseteq> set (nc_data (translationCache w))"
    using lookup_miss_cache_subset [OF assms(2)] a by simp
  ultimately show ?thesis using r w2 by simp
qed

theorem failed_translation_not_persisted_witness:
  "fst (translateText_lookup example_world (cacheKey ''Hello everyone'' ''en'' ''hi'') ''hi'' None) = None \<and>
   fst (translate_via_service example_world ''Hello everyone'' ''en'' ''hi'') = Inl LibreTranslateFailed \<and>
   fst (translateText example_world ''Hello everyone'' ''en'' ''hi'' None) = ''Hello everyone'' \<and>
   meeting_translations (supabase (snd (translateText example_world ''Hello everyone'' ''en'' ''hi'' None))) = [] \<and>
   nc_data (translationCache (snd (translateText example_world ''Hello everyone'' ''en'' ''hi'' None))) = []"
proof -
  have l: "fst (translateText_lookup example_world (cacheKey ''Hello everyone'' ''en'' ''hi'') ''hi'' None) = None"
    by (simp add: translateText_lookup_def example_world_def example_config_def
        translationCache_new_def nc_get_def js_truthy_opt_def)
  have p: "fst (translate_via_service example_world ''Hello everyone'' ''en'' ''hi'') = Inl LibreTranslateFailed"
    by (simp add: translate_via_service_def translateWithLibreTranslate_def axios_post_def
        example_world_def example_config_def example_api_def)
  have n: "''en'' \<noteq> ''hi''" by simp
  have "meeting_translations (supabase example_world) = []"
       "nc_data (translationCache example_world) = []"
    by (simp_all add: example_world_def example_store_def translationCache_new_def)
  with failed_translation_not_persisted [OF n l p] l p show ?thesis by simp
qed

subsection \<open>Repeated translations\<close>

lemma nc_get_live:
  "map_of (nc_data c) k = Some (v, t) \<Longrightarrow> \<not> (t \<noteq> 0 \<and> t < clk) \<Longrightarrow>
   nc_get clk c k = (Some v, c\<lparr>nc_hits := nc_hits c + 1\<rparr>)"
  by (simp add: nc_get_def nc_expired_def)

lemma lookup_stdTTL:
  "stdTTL (translationCache (snd (translateText_lookup w k l tid))) = stdTTL (translationCache w)"
  using nc_get_stdTTL [of "clock w" "translationCache w" k]
  by (auto simp: translateText_lookup_def Let_def nc_set_def split: prod.splits option.splits)

lemma lookup_hit:
  assumes "features_cacheTranslations (cfg w)"
    and "map_of (nc_data (translationCache w)) k = Some (v, t)"
    and "\<not> (t \<noteq> 0 \<and> t < clock w)" "v \<noteq> []"
  shows "translateText_lookup w k l tid =
           (Some v, w\<lparr>translationCache := (translationCache w)\<lparr>nc_hits := nc_hits (translationCache w) + 1\<rparr>\<rparr>)"
  using assms nc_get_live [OF assms(2,3)]
  by (simp add: translateText_lookup_def js_truthy_opt_def js_truthy_def)

lemma perform_success_cached:
  assumes "features_cacheTranslations (cfg w)"
    and "fst (translate_via_service w t s l) = Inr tr"
  shows "fst (translateText_perform w t s l tid) = tr \<and>
         map_of (nc_data (translationCache (snd (translateText_perform w t s l tid)))) (cacheKey t s l)
           = Some (tr, if stdTTL (translationCache w) = 0 then 0
                       else clock w + stdTTL (translationCache w) * 1000) \<and>
         api_requests (snd (translateText_perform w t s l tid)) =
           api_requests (snd (translate_via_service w t s l))"
proof -
  obtain w1 where a: "translate_via_service w t s l = (Inr tr, w1)"
    using assms(2) by (metis prod.collapse)
  have st: "cfg w1 = cfg w" "translationCache w1 = translationCache w" "clock w1 = clock w"
    using translate_via_service_state [of w t s l] a by simp_all
  show ?thesis using a st assms(1)
    by (simp add: translateText_perform_def Let_def nc_set_data split: option.splits prod.splits)
qed

text \<open>
  C8, as the code has it. With translation caching enabled (the default) and the cache's
  standard TTL of 3600 s: when a request for \<open>(T, S, L)\<close>, \<open>S \<noteq> L\<close>, is not answered from
  the cache and the translation service returns a non-empty text \<open>tr\<close>, then a following
  request for \<open>(T, S, L)\<close> made no later than 3600000 ms after the first returns \<open>tr\<close> again
  and sends no request to the translation service, whatever the service would answer
  then and whatever transcript id is passed.
\<close>

theorem repeated_translation_served_from_cache:
  assumes "features_cacheTranslations (cfg w)"
    and "stdTTL (translationCache w) = 3600"
    and "S \<noteq> L"
    and "fst (translateText_lookup w (cacheKey T S L) L tid) = None"
    and "fst (translate_via_service w T S L) = Inr tr"
    and "tr \<noteq> []"
    and "translateText w T S L tid = (r1, w1)"
    and "clock2 \<le> clock w + 3600000"
  shows "r1 = tr \<and>
         fst (translateText (w1\<lparr>clock := clock2, translation_api := api2\<rparr>) T S L tid2) = tr \<and>
         api_requests (snd (translateText (w1\<lparr>clock := clock2, translation_api := api2\<rparr>) T S L tid2))
           = api_requests w1"
proof -
  obtain x w0 where a: "translateText_lookup w (cacheKey T S L) L tid = (x, w0)" by fastforce
  have x: "x = None" using assms(4) a by simp
  have env: "cfg w0 = cfg w" "translation_api w0 = translation_api w" "clock w0 = clock w"
    using lookup_env [of w "cacheKey T S L" L tid] a by simp_all
  have ttl: "stdTTL (translationCache w0) = 3600"
    using lookup_stdTTL [of w "cacheKey T S L" L tid] a assms(2) by simp
  have "fst (translate_via_service w0 T S L) = fst (translate_via_service w T S L)"
    using env(1,2) by (rule translate_via_service_frame)
  then have ok: "fst (translate_via_service w0 T S L) = Inr tr" using assms(5) by simp
  have c0: "features_cacheTranslations (cfg w0)" using env assms(1) by simp
  have w1: "translateText_perform w0 T S L tid = (r1, w1)"
    using assms(3,7) a x by (simp add: translateText_def)
  have r1: "r1 = tr"
    using perform_success_cached [OF c0 ok, of tid] w1 by simp
  have m: "map_of (nc_data (translationCache w1)) (cacheKey T S L) = Some (tr, clock w + 3600000)"
    using perform_success_cached [OF c0 ok, of tid] w1 ttl env by simp
  have c1: "features_cacheTranslations (cfg w1)"
    using perform_env [of w0 T S L tid] w1 c0 by simp
  let ?w = "w1\<lparr>clock := clock2, translation_api := api2\<rparr>"
  have "translateText_lookup ?w (cacheKey T S L) L tid2 =
          (Some tr, ?w\<lparr>translationCache := (translationCache ?w)\<lparr>nc_hits := nc_hits (translationCache ?w) + 1\<rparr>\<rparr>)"
    using assms(6,8) c1 m by (intro lookup_hit) auto
  then show ?thesis using r1 assms(3) by (simp add: translateText_def)
qed


theorem repeated_translation_served_from_cache_witness:
  "fst (translateText_lookup example_world (cacheKey ''Hello everyone'' ''en'' ''ta'') ''ta'' None) = None \<and>
   fst (translate_via_service example_world ''Hello everyone'' ''en'' ''ta'') = Inr ''Anaivarukkum vanakkam'' \<and>
   fst (translateText example_world ''Hello everyone'' ''en'' ''ta'' None) = ''Anaivarukkum vanakkam'' \<and>
   fst (translateText
          ((snd (translateText example_world ''Hello everyone'' ''en'' ''ta'' None))
             \<lparr>clock := 3601000, translation_api := (\<lambda>rq. None)\<rparr>)
          ''Hello everyone'' ''en'' ''ta'' None) = ''Anaivarukkum vanakkam'' \<and>
   api_requests (snd (translateText
          ((snd (translateText example_world ''Hello everyone'' ''en'' ''ta'' None))
             \<lparr>clock := 3601000, translation_api := (\<lambda>rq. None)\<rparr>)
          ''Hello everyone'' ''en'' ''ta'' None))
     = api_requests (snd (translateText example_world ''Hello everyone'' ''en'' ''ta'' None))"
proof -
  have c: "features_cacheTranslations (cfg example_world)"
    and t: "stdTTL (translationCache example_world) = 3600"
    and k: "clock example_world = 1000"
    by (simp_all add: example_world_def example_config_def translationCache_new_def)
  have l: "fst (translateText_lookup example_world (cacheKey ''Hello everyone'' ''en'' ''ta'') ''ta'' None) = None"
    by (simp add: translateText_lookup_def example_world_def example_config_def
        translationCache_new_def nc_get_def js_truthy_opt_def)
  have p: "fst (translate_via_service example_world ''Hello everyone'' ''en'' ''ta'') = Inr ''Anaivarukkum vanakkam''"
    by (simp add: translate_via_service_def translateWithLibreTranslate_def axios_post_def
        example_world_def example_config_def example_api_def)
  have n: "''en'' \<noteq> ''ta''" "''Anaivarukkum vanakkam'' \<noteq> []" by simp_all
  obtain r1 w1 where a: "translateText example_world ''Hello everyone'' ''en'' ''ta'' None = (r1, w1)"
    by fastforce
  have w: "(3601000::nat) \<le> clock example_world + 3600000" using k by simp
  from repeated_translation_served_from_cache [OF c t n(1) l p n(2) a w, of "\<lambda>rq. None" None] a l p
  show ?thesis by simp
qed

text \<open>
  C8 as stated fails when translation caching is switched off: the second request for
  the same text and languages goes to the translation service again.
\<close>

theorem repeated_translation_counterexample:
  "fst (translate_via_service example_world_nocache ''Hello everyone'' ''en'' ''ta'')
     = Inr ''Anaivarukkum vanakkam'' \<and>
   api_requests (snd (translateText example_world_nocache ''Hello everyone'' ''en'' ''ta'' None))
     = [\<lparr>rq_service = ''libretranslate'', rq_q = ''Hello everyone'',
         rq_source = Some ''en'', rq_target = ''ta''\<rparr>] \<and>
   api_requests (snd (translateText
        (snd (translateText example_world_nocache ''Hello everyone'' ''en'' ''ta'' None))
        ''Hello everyone'' ''en'' ''ta'' None))
     = [\<lparr>rq_service = ''libretranslate'', rq_q = ''Hello everyone'',
         rq_source = Some ''en'', rq_target = ''ta''\<rparr>,
        \<lparr>rq_service = ''libretranslate'', rq_q = ''Hello everyone'',
         rq_source = Some ''en'', rq_target = ''ta''\<rparr>]"
  by (simp add: translateText_def translateText_lookup_def translateText_perform_def
      translate_via_service_def translateWithLibreTranslate_def axios_post_def
      example_world_nocache_def example_world_def example_config_def example_api_def)

subsection \<open>The memory cache has no entry bound\<close>

lemma alist_update_fresh:
  "k \<notin> set (map fst al) \<Longrightarrow> AList.update k v al = al @ [(k, v)]"
  by (induction al) auto

lemma nc_set_fresh_key:
  assumes "key \<notin> set (nc_keys c)" and "stdTTL c = 3600" and "clock' \<le> clk + 3600000"
  shows "nc_keys (nc_set clk c key val) = nc_keys c @ [key] \<and>
         nc_live_keys clock' (nc_set clk c key val) = nc_live_keys clock' c @ [key]"
  using assms
  by (simp add: nc_set_def nc_keys_def nc_live_keys_def alist_update_fresh nc_expired_def)

lemma lookup_uncached_cache:
  assumes "uncached w t s l tid"
  shows "nc_data (translationCache (snd (translateText_lookup w (cacheKey t s l) l tid))) =
           nc_data (translationCache w)"
proof (cases "features_cacheTranslations (cfg w)")
  case False
  then show ?thesis by (simp add: translateText_lookup_def)
next
  case True
  have m: "map_of (nc_data (translationCache w)) (cacheKey t s l) = None"
    using assms by (simp add: uncached_def)
  have n: "fst (translateText_lookup w (cacheKey t s l) l tid) = None"
    using lookup_uncached_miss [OF assms] by simp
  show ?thesis using True m n
    by (auto simp: translateText_lookup_def nc_get_absent js_truthy_opt_def Let_def
        split: option.splits prod.splits if_splits)
qed

text \<open>
  C4, what the code does: the cache is constructed with a time to live of one hour
  (\<open>stdTTL: 3600\<close>) and no entry bound. Every successful translation of a request that is
  not yet stored appends its key to the cache and keeps every key already there, however
  many there are: the new key is live at once, and no live key is evicted to make room.
\<close>

theorem translation_cache_never_evicts:
  assumes "features_cacheTranslations (cfg w)"
    and "stdTTL (translationCache w) = 3600"
    and "S \<noteq> L"
    and "uncached w T S L tid"
    and "fst (translate_via_service w T S L) = Inr tr"
  shows "nc_keys (translationCache (snd (translateText w T S L tid))) =
           nc_keys (translationCache w) @ [cacheKey T S L] \<and>
         nc_live_keys (clock w) (translationCache (snd (translateText w T S L tid))) =
           nc_live_keys (clock w) (translationCache w) @ [cacheKey T S L]"
proof -
  obtain x w0 where a: "translateText_lookup w (cacheKey T S L) L tid = (x, w0)" by fastforce
  have x: "x = None" using lookup_uncached_miss [OF assms(4)] a by simp
  have env: "cfg w0 = cfg w" "translation_api w0 = translation_api w" "clock w0 = clock w"
    using lookup_env [of w "cacheKey T S L" L tid] a by simp_all
  have d0: "nc_data (translationCache w0) = nc_data (translationCache w)"
    using lookup_uncached_cache [OF assms(4)] a by simp
  have t0: "stdTTL (translationCache w0) = 3600"
    using lookup_stdTTL [of w "cacheKey T S L" L tid] a assms(2) by simp
  have "fst (translate_via_service w0 T S L) = fst (translate_via_service w T S L)"
    using env(1,2) by (rule translate_via_service_frame)
  then obtain w1 where b: "translate_via_service w0 T S L = (Inr tr, w1)"
    using assms(5) by (metis prod.collapse)
  have w1: "cfg w1 = cfg w0" "translationCache w1 = translationCache w0" "clock w1 = clock w0"
    using translate_via_service_state [of w0 T S L] b by simp_all
  let ?c = "nc_set (clock w) (translationCache w0) (cacheKey T S L) tr"
  have c: "translationCache (snd (translateText w T S L tid)) = ?c"
    using assms(1,3) a x b w1 env
    by (simp add: translateText_def translateText_perform_def Let_def
        split: option.splits prod.splits)
  have k: "cacheKey T S L \<notin> set (nc_keys (translationCache w0))"
    using assms(4) d0 by (simp add: uncached_def nc_keys_def map_of_eq_None_iff)
  have "nc_keys ?c = nc_keys (translationCache w0) @ [cacheKey T S L] \<and>
        nc_live_keys (clock w) ?c = nc_live_keys (clock w) (translationCache w0) @ [cacheKey T S L]"
    using k t0 by (intro nc_set_fresh_key) simp_all
  then show ?thesis using c d0 by (simp add: nc_keys_def nc_live_keys_def)
qed

theorem translation_cache_never_evicts_witness:
  "uncached example_world ''Hello everyone'' ''en'' ''ta'' None \<and>
   fst (translate_via_service example_world ''Hello everyone'' ''en'' ''ta'') = Inr ''Anaivarukkum vanakkam'' \<and>
   nc_keys (translationCache (snd (translateText example_world ''Hello everyone'' ''en'' ''ta'' None)))
     = [''Hello everyone_en_ta''] \<and>
   nc_live_keys 1000 (translationCache (snd (translateText example_world ''Hello everyone'' ''en'' ''ta'' None)))
     = [''Hello everyone_en_ta'']"
proof -
  have c: "features_cacheTranslations (cfg example_world)"
    and t: "stdTTL (translationCache example_world) = 3600"
    and k: "clock example_world = 1000"
    and e: "nc_keys (translationCache example_world) = []"
           "nc_live_keys 1000 (translationCache example_world) = []"
    by (simp_all add: example_world_def example_config_def translationCache_new_def
        nc_keys_def nc_live_keys_def)
  have u: "uncached example_world ''Hello everyone'' ''en'' ''ta'' None"
    by (simp add: uncached_def example_world_def translationCache_new_def example_store_def)
  have p: "fst (translate_via_service example_world ''Hello everyone'' ''en'' ''ta'') = Inr ''Anaivarukkum vanakkam''"
    by (simp add: translate_via_service_def translateWithLibreTranslate_def axios_post_def
        example_world_def example_config_def example_api_def)
  have n: "''en'' \<noteq> ''ta''" by simp
  have ck: "cacheKey ''Hello everyone'' ''en'' ''ta'' = ''Hello everyone_en_ta''"
    by (simp add: cacheKey_def)
  from translation_cache_never_evicts [OF c t n u p] u p e k ck show ?thesis by simp
qed

section \<open>Properties of caption delivery and the agent\<close>

lemma broadcastCaption_state:
  "supabase (snd (broadcastCaption w rm c)) = supabase w \<and>
   translationCache (snd (broadcastCaption w rm c)) = translationCache w \<and>
   api_requests (snd (broadcastCaption w rm c)) = api_requests w \<and>
   live_connections (snd (broadcastCaption w rm c)) = live_connections w \<and>
   activeSessions (snd (broadcastCaption w rm c)) = activeSessions w"
  by (simp add: broadcastCaption_def uuidv4_def publishData_def split: list.splits)

lemma broadcastCaption_published:
  "\<exists>m a. published (snd (broadcastCaption w rm c)) =
            published w @ [\<lparr>pk_room = rm, pk_payload = Caption m, pk_destination = None,
                            pk_accepted = a\<rparr>] \<and>
         meetingId m = cp_meetingId c \<and> speakerId m = cp_speakerId c \<and>
         originalText m = cp_originalText c \<and>
         translatedText m = Some (js_or (cp_translatedText c) (cp_originalText c)) \<and>
         isFinal m = cp_isFinal c"
  by (cases "transport_faults w") (auto simp: broadcastCaption_def uuidv4_def publishData_def)

text \<open>
  C7. A recognizer result that is not final (and carries a transcript) is handled by the
  interim callback alone: the store, the memory cache and the record of translation
  requests are left as they were, and exactly one \<open>publishData\<close> call is made, addressed
  to the whole room, with a caption that is not final and whose translated text is the
  original text.
\<close>

theorem interim_transcript_broadcast_only:
  assumes "alternatives data = alt # rest"
    and "alt_transcript alt \<noteq> []"
    and "is_final data \<noteq> Some True"
  shows "supabase (agent_connection_on s p w (Transcript data)) = supabase w \<and>
         translationCache (agent_connection_on s p w (Transcript data)) = translationCache w \<and>
         api_requests (agent_connection_on s p w (Transcript data)) = api_requests w \<and>
         (\<exists>m a. published (agent_connection_on s p w (Transcript data)) =
                   published w @ [\<lparr>pk_room = room s, pk_payload = Caption m,
                                   pk_destination = None, pk_accepted = a\<rparr>] \<and>
                 originalText m = alt_transcript alt \<and>
                 translatedText m = Some (alt_transcript alt) \<and>
                 \<not> isFinal m)"
proof -
  let ?t = "\<lparr>ts_text = alt_transcript alt,
             ts_confidence = (case alt_confidence alt of None \<Rightarrow> 0 | Some c \<Rightarrow> c),
             ts_language = js_or (Some ''en'') ''en'', ts_isFinal = False\<rparr>"
  let ?c = "\<lparr>cp_meetingId = ss_meetingId s, cp_speakerId = identity p, cp_speakerName = name p,
             cp_originalText = ts_text ?t, cp_originalLanguage = ts_language ?t,
             cp_translatedText = None, cp_targetLanguage = None,
             cp_isFinal = False, cp_confidence = ts_confidence ?t\<rparr>"
  have e: "agent_connection_on s p w (Transcript data) = snd (broadcastCaption w (room s) ?c)"
    using assms
    by (simp add: agent_connection_on_def connection_on_def js_truthy_def Let_def
        handleInterimTranscript_def)
  have j: "js_or (cp_translatedText ?c) (cp_originalText ?c) = alt_transcript alt"
    by (simp add: js_or_def js_truthy_opt_def)
  obtain m a where m:
    "published (snd (broadcastCaption w (room s) ?c)) =
       published w @ [\<lparr>pk_room = room s, pk_payload = Caption m, pk_destination = None,
                       pk_accepted = a\<rparr>]"
    "originalText m = cp_originalText ?c"
    "translatedText m = Some (js_or (cp_translatedText ?c) (cp_originalText ?c))"
    "isFinal m = cp_isFinal ?c"
    using broadcastCaption_published [of w "room s" ?c] by blast
  have "originalText m = alt_transcript alt" "translatedText m = Some (alt_transcript alt)"
    "\<not> isFinal m"
    using m(2,3,4) j by simp_all
  with m(1) e broadcastCaption_state [of w "room s" ?c] show ?thesis by auto
qed

theorem interim_transcript_broadcast_only_witness:
  "supabase (agent_connection_on example_session example_speaker example_world
               (Transcript example_interim)) = supabase example_world \<and>
   api_requests (agent_connection_on example_session example_speaker example_world
               (Transcript example_interim)) = [] \<and>
   (\<exists>m a. published (agent_connection_on example_session example_speaker example_world
                       (Transcript example_interim)) =
             [\<lparr>pk_room = ''room-m1'', pk_payload = Caption m, pk_destination = None,
               pk_accepted = a\<rparr>] \<and>
           originalText m = ''Hello every'' \<and> translatedText m = Some ''Hello every'' \<and>
           \<not> isFinal m)"
proof -
  have h: "alternatives example_interim =
             \<lparr>alt_transcript = ''Hello every'', alt_confidence = Some 0.8\<rparr> # []"
    "alt_transcript \<lparr>alt_transcript = ''Hello every'', alt_confidence = Some 0.8\<rparr> \<noteq> []"
    "is_final example_interim \<noteq> Some True"
    by (simp_all add: example_interim_def)
  have w: "published example_world = []" "api_requests example_world = []"
    "room example_session = ''room-m1''"
    by (simp_all add: example_world_def example_session_def)
  from interim_transcript_broadcast_only [OF h, of example_session example_speaker example_world] w
  show ?thesis by simp
qed

subsection \<open>Final transcripts without translation\<close>

lemma getMeetingLanguages_store_error:
  "store_faults d = True # fs \<Longrightarrow> fst (getMeetingLanguages d meeting) = []"
  by (simp add: getMeetingLanguages_def store_request_def)

lemma processFinalTranscript_state:
  "published (snd (processFinalTranscript w meeting sp nm t)) = published w \<and>
   cfg (snd (processFinalTranscript w meeting sp nm t)) = cfg w"
  by (simp add: processFinalTranscript_def split: prod.splits)

text \<open>
  C10. A final transcript when translation is disabled, or when reading the participants'
  languages yields the empty list (which is also what an error of the store yields):
  exactly one \<open>publishData\<close> call is made, addressed to the whole room, with a final
  caption whose translated text is the original text.
\<close>

theorem final_transcript_broadcast_without_translation:
  assumes "\<not> features_translation (cfg w) \<or>
           fst (getMeetingLanguages
                  (supabase (snd (processFinalTranscript w (ss_meetingId s) sp nm t)))
                  (ss_meetingId s)) = []"
  shows "\<exists>m a. published (handleFinalTranscript w s sp nm t) =
                 published w @ [\<lparr>pk_room = room s, pk_payload = Caption m,
                                 pk_destination = None, pk_accepted = a\<rparr>] \<and>
               originalText m = ts_text t \<and>
               translatedText m = Some (ts_text t) \<and>
               isFinal m"
proof -
  obtain saved w1 where a: "processFinalTranscript w (ss_meetingId s) sp nm t = (saved, w1)"
    by fastforce
  obtain langs d2 where b: "getMeetingLanguages (supabase w1) (ss_meetingId s) = (langs, d2)"
    by fastforce
  have w1: "published w1 = published w" "cfg w1 = cfg w"
    using processFinalTranscript_state [of w "ss_meetingId s" sp nm t] a by simp_all
  let ?c = "\<lparr>cp_meetingId = ss_meetingId s, cp_speakerId = sp, cp_speakerName = nm,
             cp_originalText = ts_text t, cp_originalLanguage = ts_language t,
             cp_translatedText = None, cp_targetLanguage = None,
             cp_isFinal = True, cp_confidence = ts_confidence t\<rparr>"
  let ?w2 = "w1\<lparr>supabase := d2\<rparr>"
  have c: "\<not> features_translation (cfg ?w2) \<or> langs = []"
    using assms a b w1 by auto
  have e: "handleFinalTranscript w s sp nm t = snd (broadcastCaption ?w2 (room s) ?c)"
    using a b c by (simp add: handleFinalTranscript_def Let_def)
  obtain m x where m:
    "published (snd (broadcastCaption ?w2 (room s) ?c)) =
       published ?w2 @ [\<lparr>pk_room = room s, pk_payload = Caption m, pk_destination = None,
                         pk_accepted = x\<rparr>]"
    "originalText m = cp_originalText ?c"
    "translatedText m = Some (js_or (cp_translatedText ?c) (cp_originalText ?c))"
    "isFinal m = cp_isFinal ?c"
    using broadcastCaption_published [of ?w2 "room s" ?c] by blast
  have "originalText m = ts_text t" "translatedText m = Some (ts_text t)" "isFinal m"
    using m(2,3,4) by (simp_all add: js_or_def js_truthy_opt_def)
  with m(1) e w1 show ?thesis by auto
qed

theorem final_transcript_broadcast_without_translation_witness:
  "features_translation (cfg example_world_store_down) \<and>
   fst (getMeetingLanguages
          (supabase (snd (processFinalTranscript example_world_store_down ''m1'' ''A'' ''Alice''
                            example_final))) ''m1'') = [] \<and>
   (\<exists>m a. published (handleFinalTranscript example_world_store_down example_session ''A'' ''Alice''
                       example_final) =
             [\<lparr>pk_room = ''room-m1'', pk_payload = Caption m, pk_destination = None,
               pk_accepted = a\<rparr>] \<and>
           originalText m = ''Hello everyone'' \<and> translatedText m = Some ''Hello everyone'' \<and>
           isFinal m)"
proof -
  have f: "store_faults (supabase (snd (processFinalTranscript example_world_store_down ''m1''
              ''A'' ''Alice'' example_final))) = True # []"
    by (simp add: processFinalTranscript_def saveTranscript_def store_request_def
        example_world_store_down_def example_world_def example_store_def Let_def)
  have g: "fst (getMeetingLanguages
          (supabase (snd (processFinalTranscript example_world_store_down ''m1'' ''A'' ''Alice''
                            example_final))) ''m1'') = []"
    using f by (rule getMeetingLanguages_store_error)
  have s: "ss_meetingId example_session = ''m1''" "room example_session = ''room-m1''"
    "published example_world_store_down = []" "ts_text example_final = ''Hello everyone''"
    "features_translation (cfg example_world_store_down)"
    by (simp_all add: example_session_def example_world_store_down_def example_world_def
        example_final_def example_config_def)
  have "\<not> features_translation (cfg example_world_store_down) \<or>
        fst (getMeetingLanguages
               (supabase (snd (processFinalTranscript example_world_store_down
                                 (ss_meetingId example_session) ''A'' ''Alice'' example_final)))
               (ss_meetingId example_session)) = []"
    using g s(1) by simp
  from final_transcript_broadcast_without_translation [OF this] g s show ?thesis by simp
qed

subsection \<open>Final transcripts with translation\<close>

lemma nc_get_cached_text: "fst (nc_get clk c k) = cached_text clk c k"
  by (simp add: nc_get_def cached_text_def split: option.splits)

lemma nc_get_keeps_cached_text:
  "cached_text clk (snd (nc_get clk c k)) k' = cached_text clk c k'"
  by (auto simp: nc_get_def cached_text_def delete_conv' split: option.splits)

lemma nc_set_cached_text:
  "cached_text clk (nc_set clk c k v) k' = (if k' = k then Some v else cached_text clk c k')"
  by (simp add: cached_text_def nc_set_data nc_expired_def)

lemma store_request_tables:
  "meeting_translations (snd (store_request d)) = meeting_translations d \<and>
   meeting_transcripts (snd (store_request d)) = meeting_transcripts d \<and>
   next_id (snd (store_request d)) = next_id d \<and>
   meeting_participants (snd (store_request d)) = meeting_participants d \<and>
   user_settings (snd (store_request d)) = user_settings d"
  by (simp add: store_request_def split: list.splits)

lemma getTranslation_stored:
  "fst (getTranslation d i l) = None \<or> fst (getTranslation d i l) = stored_translation d i l"
proof -
  obtain ok d1 where a: "store_request d = (ok, d1)" by fastforce
  have "meeting_translations d1 = meeting_translations d"
    using store_request_tables [of d] a by simp
  then show ?thesis using a
    by (cases ok) (simp_all add: getTranslation_def stored_translation_def split: list.splits)
qed

lemma getTranslation_keeps_stored:
  "stored_translation (snd (getTranslation d i l)) i' l' = stored_translation d i' l'"
  using getTranslation_tables [of d i l] by (simp add: stored_translation_def)

lemma saveTranslation_stored_other:
  "l' \<noteq> l \<Longrightarrow>
   stored_translation (snd (saveTranslation d i l txt svc)) i' l' = stored_translation d i' l'"
proof -
  assume n: "l' \<noteq> l"
  obtain ok d1 where a: "store_request d = (ok, d1)" by fastforce
  have t: "meeting_translations d1 = meeting_translations d"
    using store_request_tables [of d] a by simp
  show ?thesis using a t n
    by (cases ok) (simp_all add: saveTranslation_def stored_translation_def Let_def)
qed

lemma saveTranslation_stored_same:
  "stored_translation (snd (saveTranslation d i l txt svc)) i l = stored_translation d i l \<or>
   stored_translation (snd (saveTranslation d i l txt svc)) i l = Some txt"
proof -
  obtain ok d1 where a: "store_request d = (ok, d1)" by fastforce
  have t: "meeting_translations d1 = meeting_translations d"
    using store_request_tables [of d] a by simp
  show ?thesis
  proof (cases "\<exists>r \<in> set (meeting_translations d). tl_transcript_id r = i \<and> tl_target_language r = l")
    case True
    then show ?thesis using a t
      by (cases ok) (simp_all add: saveTranslation_def stored_translation_def Let_def)
  next
    case False
    then have "filter (\<lambda>r. tl_transcript_id r = i \<and> tl_target_language r = l) (meeting_translations d) = []"
      by (auto simp: filter_empty_conv)
    then show ?thesis using a t False
      by (cases ok) (simp_all add: saveTranslation_def stored_translation_def Let_def)
  qed
qed

lemma usable_within_mono: "usable_within x V \<Longrightarrow> V \<subseteq> V' \<Longrightarrow> usable_within x V'"
  by (auto simp: usable_within_def split: option.splits)

lemma usable_within_truthy:
  "usable_within x V \<Longrightarrow> js_truthy_opt x \<Longrightarrow> \<exists>v \<in> V. x = Some v"
  by (auto simp: usable_within_def js_truthy_opt_def js_truthy_def split: option.splits)

lemma lookup_cached_only_same:
  assumes "cached_only w t s l tid V"
  shows "(fst (translateText_lookup w (cacheKey t s l) l tid) = None \<or>
          (\<exists>v \<in> V. fst (translateText_lookup w (cacheKey t s l) l tid) = Some v)) \<and>
         cached_only (snd (translateText_lookup w (cacheKey t s l) l tid)) t s l tid V"
proof (cases "features_cacheTranslations (cfg w)")
  case False
  then show ?thesis using assms by (simp add: translateText_lookup_def)
next
  case True
  let ?k = "cacheKey t s l"
  obtain c c1 where g: "nc_get (clock w) (translationCache w) ?k = (c, c1)" by fastforce
  have c: "c = cached_text (clock w) (translationCache w) ?k"
    using nc_get_cached_text [of "clock w" "translationCache w" ?k] g by simp
  have c1: "cached_text (clock w) c1 k' = cached_text (clock w) (translationCache w) k'" for k'
    using nc_get_keeps_cached_text [of "clock w" "translationCache w" ?k k'] g by simp
  have u: "usable_within c V" using assms c by (simp add: cached_only_def)
  show ?thesis
  proof (cases "js_truthy_opt c")
    case hit: True
    then obtain v where "v \<in> V" "c = Some v" using usable_within_truthy [OF u] by blast
    then show ?thesis using True g hit assms c1
      by (auto simp: translateText_lookup_def cached_only_def split: option.splits)
  next
    case miss: False
    show ?thesis
    proof (cases tid)
      case None
      then show ?thesis using True g miss assms c1
        by (auto simp: translateText_lookup_def cached_only_def split: option.splits)
    next
      case (Some i)
      obtain x d1 where d: "getTranslation (supabase w) i l = (x, d1)" by fastforce
      have x: "x = None \<or> x = stored_translation (supabase w) i l"
        using getTranslation_stored [of "supabase w" i l] d by simp
      have d1: "stored_translation d1 i' l' = stored_translation (supabase w) i' l'" for i' l'
        using getTranslation_keeps_stored [of "supabase w" i l i' l'] d by simp
      have ux: "usable_within x V"
        using x assms Some by (auto simp: cached_only_def usable_within_def)
      show ?thesis
      proof (cases "js_truthy_opt x")
        case dbhit: True
        then obtain v where "v \<in> V" "x = Some v" using usable_within_truthy [OF ux] by blast
        then show ?thesis using True g miss Some d dbhit assms d1
          by (auto simp: translateText_lookup_def cached_only_def nc_set_cached_text usable_within_def split: option.splits)
      next
        case False
        then show ?thesis using True g miss Some d assms d1 c1
          by (auto simp: translateText_lookup_def cached_only_def split: option.splits)
      qed
    qed
  qed
qed

lemma lookup_cached_only_other:
  assumes "l' \<noteq> l" "cached_only w t s l tid V"
  shows "cached_only (snd (translateText_lookup w (cacheKey t s l') l' tid)) t s l tid V"
proof (cases "features_cacheTranslations (cfg w)")
  case False
  then show ?thesis using assms by (simp add: translateText_lookup_def)
next
  case True
  let ?k = "cacheKey t s l'"
  have k: "cacheKey t s l \<noteq> ?k" using assms(1) by (simp add: cacheKey_target_inj)
  obtain c c1 where g: "nc_get (clock w) (translationCache w) ?k = (c, c1)" by fastforce
  have c1: "cached_text (clock w) c1 k' = cached_text (clock w) (translationCache w) k'" for k'
    using nc_get_keeps_cached_text [of "clock w" "translationCache w" ?k k'] g by simp
  show ?thesis
  proof (cases "js_truthy_opt c")
    case hit: True
    then show ?thesis using True g assms c1
      by (auto simp: translateText_lookup_def cached_only_def split: option.splits)
  next
    case miss: False
    show ?thesis
    proof (cases tid)
      case None
      then show ?thesis using True g miss assms c1
        by (auto simp: translateText_lookup_def cached_only_def split: option.splits)
    next
      case (Some i)
      obtain x d1 where d: "getTranslation (supabase w) i l' = (x, d1)" by fastforce
      have d1: "stored_translation d1 i' l'' = stored_translation (supabase w) i' l''" for i' l''
        using getTranslation_keeps_stored [of "supabase w" i l' i' l''] d by simp
      show ?thesis using True g miss Some d assms d1 c1 k
        by (cases "js_truthy_opt x")
           (auto simp: translateText_lookup_def cached_only_def nc_set_cached_text Let_def
                 split: option.splits)
    qed
  qed
qed

lemma perform_cached_only_same:
  assumes "cached_only w t s l tid V"
  shows "cached_only (snd (translateText_perform w t s l tid)) t s l tid
           (V \<union> (case fst (translate_via_service w t s l) of Inl e \<Rightarrow> {} | Inr tr \<Rightarrow> {tr}))"
proof -
  obtain r w1 where a: "translate_via_service w t s l = (r, w1)" by fastforce
  have st: "translationCache w1 = translationCache w" "supabase w1 = supabase w"
    "clock w1 = clock w" "cfg w1 = cfg w"
    using translate_via_service_state [of w t s l] a by simp_all
  show ?thesis
  proof (cases r)
    case (Inl e)
    then show ?thesis using a st assms by (simp add: translateText_perform_def cached_only_def)
  next
    case (Inr tr)
    have m: "usable_within x V \<Longrightarrow> usable_within x (insert tr V)" for x
      by (rule usable_within_mono) auto
    show ?thesis
    proof (cases "features_cacheTranslations (cfg w)")
      case False
      then show ?thesis using a Inr st assms m
        by (auto simp: translateText_perform_def cached_only_def split: option.splits)
    next
      case True
      show ?thesis
      proof (cases tid)
        case None
        then show ?thesis using a Inr st True
          by (simp add: translateText_perform_def cached_only_def nc_set_cached_text
              usable_within_def)
      next
        case (Some i)
        obtain sv d1 where d:
          "saveTranslation (supabase w) i l tr (translation_service (cfg w)) = (sv, d1)"
          by fastforce
        have "stored_translation d1 i l = stored_translation (supabase w) i l \<or>
              stored_translation d1 i l = Some tr"
          using saveTranslation_stored_same [of "supabase w" i l tr "translation_service (cfg w)"] d
          by simp
        moreover have "usable_within (stored_translation (supabase w) i l) (insert tr V)"
          using assms Some m by (simp add: cached_only_def)
        ultimately have "usable_within (stored_translation d1 i l) (insert tr V)"
          by (auto simp: usable_within_def)
        then show ?thesis using a Inr st True Some d
          by (simp add: translateText_perform_def cached_only_def nc_set_cached_text
              usable_within_def)
      qed
    qed
  qed
qed

lemma perform_cached_only_other:
  assumes "l' \<noteq> l" "cached_only w t s l tid V"
  shows "cached_only (snd (translateText_perform w t s l' tid)) t s l tid V"
proof -
  obtain r w1 where a: "translate_via_service w t s l' = (r, w1)" by fastforce
  have st: "translationCache w1 = translationCache w" "supabase w1 = supabase w"
    "clock w1 = clock w" "cfg w1 = cfg w"
    using translate_via_service_state [of w t s l'] a by simp_all
  have k: "cacheKey t s l \<noteq> cacheKey t s l'" using assms(1) by (simp add: cacheKey_target_inj)
  show ?thesis
  proof (cases r)
    case (Inl e)
    then show ?thesis using a st assms by (simp add: translateText_perform_def cached_only_def)
  next
    case (Inr tr)
    show ?thesis
    proof (cases "features_cacheTranslations (cfg w)")
      case False
      then show ?thesis using a Inr st assms
        by (simp add: translateText_perform_def cached_only_def)
    next
      case True
      show ?thesis
      proof (cases tid)
        case None
        then show ?thesis using a Inr st True assms k
          by (simp add: translateText_perform_def cached_only_def nc_set_cached_text)
      next
        case (Some i)
        obtain sv d1 where d:
          "saveTranslation (supabase w) i l' tr (translation_service (cfg w)) = (sv, d1)"
          by fastforce
        have "stored_translation d1 i l = stored_translation (supabase w) i l"
          using saveTranslation_stored_other
                  [of l l' "supabase w" i tr "translation_service (cfg w)" i] assms(1) d
          by simp
        then show ?thesis using a Inr st True Some d assms k
          by (simp add: translateText_perform_def cached_only_def nc_set_cached_text)
      qed
    qed
  qed
qed

lemma translateText_cached_only_other:
  assumes "l' \<noteq> l" "cached_only w t s l tid V"
  shows "cached_only (snd (translateText w t s l' tid)) t s l tid V"
proof (cases "s = l'")
  case True
  then show ?thesis using assms by (simp add: translateText_def)
next
  case False
  obtain x w1 where a: "translateText_lookup w (cacheKey t s l') l' tid = (x, w1)" by fastforce
  have u: "cached_only w1 t s l tid V" using lookup_cached_only_other [OF assms] a by simp
  show ?thesis
  proof (cases x)
    case None
    then show ?thesis using False a perform_cached_only_other [OF assms(1) u]
      by (simp add: translateText_def)
  next
    case (Some c)
    then show ?thesis using False a u by (simp add: translateText_def)
  qed
qed

lemma translateText_cached_only_same:
  assumes "s \<noteq> l" "cached_only w t s l tid V"
  shows "fst (translateText w t s l tid) \<in>
           V \<union> {case fst (translate_via_service w t s l) of Inl e \<Rightarrow> t | Inr tr \<Rightarrow> tr} \<and>
         cached_only (snd (translateText w t s l tid)) t s l tid
           (V \<union> (case fst (translate_via_service w t s l) of Inl e \<Rightarrow> {} | Inr tr \<Rightarrow> {tr}))"
proof -
  obtain x w1 where a: "translateText_lookup w (cacheKey t s l) l tid = (x, w1)" by fastforce
  have x: "x = None \<or> (\<exists>v \<in> V. x = Some v)" and u: "cached_only w1 t s l tid V"
    using lookup_cached_only_same [OF assms(2)] a by simp_all
  have "cfg w1 = cfg w" "translation_api w1 = translation_api w"
    using lookup_env [of w "cacheKey t s l" l tid] a by simp_all
  then have f: "fst (translate_via_service w1 t s l) = fst (translate_via_service w t s l)"
    by (rule translate_via_service_frame)
  show ?thesis
  proof (cases x)
    case None
    then show ?thesis
      using assms(1) a f perform_result [of w1 t s l tid] perform_cached_only_same [OF u]
      by (simp add: translateText_def)
  next
    case (Some v)
    then have "v \<in> V" using x by auto
    moreover have "cached_only w1 t s l tid
       (V \<union> (case fst (translate_via_service w t s l) of Inl e \<Rightarrow> {} | Inr tr \<Rightarrow> {tr}))"
      using u unfolding cached_only_def
      by (auto intro: usable_within_mono split: option.splits)
    ultimately show ?thesis using assms(1) a Some by (simp add: translateText_def)
  qed
qed

lemma translateText_published:
  "published (snd (translateText w t s l tid)) = published w"
proof -
  have a: "published (snd (translateText_lookup w' k l tid)) = published w'" for w' k
    by (simp add: translateText_lookup_def Let_def split: prod.splits option.splits)
  have b: "published (snd (translate_via_service w' t s l)) = published w'" for w'
    by (simp add: translate_via_service_def translateWithGoogle_def translateWithLibreTranslate_def
        axios_post_def split: option.splits)
  have c: "published (snd (translateText_perform w' t s l tid)) = published w'" for w'
  proof -
    obtain r w1 where r: "translate_via_service w' t s l = (r, w1)" by fastforce
    then have "published w1 = published w'" using b [of w'] by simp
    then show ?thesis using r
      by (simp add: translateText_perform_def Let_def split: sum.splits option.splits prod.splits)
  qed
  obtain x w1 where l: "translateText_lookup w (cacheKey t s l) l tid = (x, w1)" by fastforce
  then have "published w1 = published w" using a [of w "cacheKey t s l"] by simp
  then show ?thesis using l c [of w1]
    by (simp add: translateText_def split: option.splits)
qed

lemma translate_for_participants_published:
  "published (snd (translate_for_participants w t tid langs acc)) = published w"
proof (induction langs arbitrary: w acc)
  case Nil
  then show ?case by simp
next
  case (Cons p langs)
  obtain u l where p: "p = (u, l)" by (cases p)
  obtain x w1 where a: "translateText w (ts_text t) (ts_language t) l tid = (x, w1)" by fastforce
  have "published w1 = published w"
    using translateText_published [of w "ts_text t" "ts_language t" l tid] a by simp
  then show ?case using p a Cons.IH by simp
qed

lemma translate_for_participants_results:
  assumes "ts_language t \<noteq> L" "ts_language t \<noteq> L2"
    and "cached_only w (ts_text t) (ts_language t) L tid {}"
    and "cached_only w (ts_text t) (ts_language t) L2 tid {tr}"
    and "fst (translate_via_service w (ts_text t) (ts_language t) L) = Inl e"
    and "fst (translate_via_service w (ts_text t) (ts_language t) L2) = Inr tr"
  shows "\<exists>cs. fst (translate_for_participants w t tid langs acc) = acc @ cs \<and>
           list_all2 (\<lambda>p c. participantIdentity c = fst p \<and> pc_language c = snd p \<and>
                             (snd p = L \<longrightarrow> pc_translatedText c = ts_text t) \<and>
                             (snd p = L2 \<longrightarrow> pc_translatedText c = tr)) langs cs"
  using assms(3-6)
proof (induction langs arbitrary: w acc)
  case Nil
  then show ?case by simp
next
  case (Cons p langs)
  let ?T = "ts_text t" and ?S = "ts_language t"
  obtain u l where p: "p = (u, l)" by (cases p)
  obtain x w1 where a: "translateText w ?T ?S l tid = (x, w1)" by fastforce
  have n: "L \<noteq> L2" using Cons.prems(3,4) by auto
  have env: "cfg w1 = cfg w" "translation_api w1 = translation_api w"
    using translateText_env [of w ?T ?S l tid] a by simp_all
  have o1: "fst (translate_via_service w1 ?T ?S L) = Inl e"
    using translate_via_service_frame [OF env, of ?T ?S L] Cons.prems(3) by simp
  have o2: "fst (translate_via_service w1 ?T ?S L2) = Inr tr"
    using translate_via_service_frame [OF env, of ?T ?S L2] Cons.prems(4) by simp
  have c1: "cached_only w1 ?T ?S L tid {}" and x1: "l = L \<longrightarrow> x = ?T"
  proof -
    show "cached_only w1 ?T ?S L tid {}"
    proof (cases "l = L")
      case True
      then show ?thesis
        using translateText_cached_only_same [OF assms(1) Cons.prems(1)] a Cons.prems(3) by simp
    next
      case False
      then show ?thesis using translateText_cached_only_other [OF False Cons.prems(1)] a by simp
    qed
    show "l = L \<longrightarrow> x = ?T"
      using translateText_cached_only_same [OF assms(1) Cons.prems(1)] a Cons.prems(3) by auto
  qed
  have c2: "cached_only w1 ?T ?S L2 tid {tr}" and x2: "l = L2 \<longrightarrow> x = tr"
  proof -
    show "cached_only w1 ?T ?S L2 tid {tr}"
    proof (cases "l = L2")
      case True
      then show ?thesis
        using translateText_cached_only_same [OF assms(2) Cons.prems(2)] a Cons.prems(4) by simp
    next
      case False
      then show ?thesis using translateText_cached_only_other [OF False Cons.prems(2)] a by simp
    qed
    show "l = L2 \<longrightarrow> x = tr"
      using translateText_cached_only_same [OF assms(2) Cons.prems(2)] a Cons.prems(4) by auto
  qed
  let ?c = "\<lparr>participantIdentity = u, pc_language = l, pc_translatedText = x\<rparr>"
  obtain cs where cs: "fst (translate_for_participants w1 t tid langs (acc @ [?c])) = (acc @ [?c]) @ cs"
    "list_all2 (\<lambda>p c. participantIdentity c = fst p \<and> pc_language c = snd p \<and>
                             (snd p = L \<longrightarrow> pc_translatedText c = ts_text t) \<and>
                             (snd p = L2 \<longrightarrow> pc_translatedText c = tr)) langs cs"
    using Cons.IH [OF c1 c2 o1 o2, of "acc @ [?c]"] by blast
  have "fst (translate_for_participants w t tid (p # langs) acc) = acc @ (?c # cs)"
    using p a cs(1) by simp
  moreover have "list_all2 (\<lambda>p c. participantIdentity c = fst p \<and> pc_language c = snd p \<and>
                             (snd p = L \<longrightarrow> pc_translatedText c = ts_text t) \<and>
                             (snd p = L2 \<longrightarrow> pc_translatedText c = tr)) (p # langs) (?c # cs)"
    using p cs(2) x1 x2 by simp
  ultimately show ?case by blast
qed

lemma sendCaptionToParticipant_published:
  "\<exists>m a. published (snd (sendCaptionToParticipant w rm u c)) =
            published w @ [\<lparr>pk_room = rm, pk_payload = Caption m, pk_destination = Some [u],
                            pk_accepted = a\<rparr>] \<and>
         originalText m = cp_originalText c \<and>
         translatedText m = cp_translatedText c \<and>
         targetLanguage m = cp_targetLanguage c \<and>
         isFinal m = cp_isFinal c"
  by (cases "transport_faults w") (auto simp: sendCaptionToParticipant_def uuidv4_def publishData_def)

lemma sendTranslatedCaptions_loop_published:
  "\<exists>pks. published (sendTranslatedCaptions_loop w rm c ps) = published w @ pks \<and>
         list_all2 (\<lambda>p pk. pk_room pk = rm \<and> pk_destination pk = Some [participantIdentity p] \<and>
                      (\<exists>m. pk_payload pk = Caption m \<and>
                           originalText m = cp_originalText c \<and>
                           targetLanguage m = Some (pc_language p) \<and>
                           translatedText m =
                             Some (js_or (Some (pc_translatedText p)) (cp_originalText c)) \<and>
                           isFinal m = cp_isFinal c)) ps pks"
proof (induction ps arbitrary: w)
  case Nil
  then show ?case by simp
next
  case (Cons p ps)
  let ?c = "c\<lparr>cp_targetLanguage := Some (pc_language p),
               cp_translatedText := Some (js_or (Some (pc_translatedText p)) (cp_originalText c))\<rparr>"
  let ?w1 = "snd (sendCaptionToParticipant w rm (participantIdentity p) ?c)"
  obtain m a where m:
    "published ?w1 = published w @ [\<lparr>pk_room = rm, pk_payload = Caption m,
        pk_destination = Some [participantIdentity p], pk_accepted = a\<rparr>]"
    "originalText m = cp_originalText ?c" "translatedText m = cp_translatedText ?c"
    "targetLanguage m = cp_targetLanguage ?c" "isFinal m = cp_isFinal ?c"
    using sendCaptionToParticipant_published [of w rm "participantIdentity p" ?c] by blast
  obtain pks where pks: "published (sendTranslatedCaptions_loop ?w1 rm c ps) = published ?w1 @ pks"
    "list_all2 (\<lambda>p pk. pk_room pk = rm \<and> pk_destination pk = Some [participantIdentity p] \<and>
                      (\<exists>m. pk_payload pk = Caption m \<and>
                           originalText m = cp_originalText c \<and>
                           targetLanguage m = Some (pc_language p) \<and>
                           translatedText m =
                             Some (js_or (Some (pc_translatedText p)) (cp_originalText c)) \<and>
                           isFinal m = cp_isFinal c)) ps pks"
    using Cons.IH [of ?w1] by blast
  let ?pk = "\<lparr>pk_room = rm, pk_payload = Caption m,
        pk_destination = Some [participantIdentity p], pk_accepted = a\<rparr>"
  have "published (sendTranslatedCaptions_loop w rm c (p # ps)) = published w @ (?pk # pks)"
    using m(1) pks(1) by simp
  moreover have "list_all2 (\<lambda>p pk. pk_room pk = rm \<and> pk_destination pk = Some [participantIdentity p] \<and>
                      (\<exists>m. pk_payload pk = Caption m \<and>
                           originalText m = cp_originalText c \<and>
                           targetLanguage m = Some (pc_language p) \<and>
                           translatedText m =
                             Some (js_or (Some (pc_translatedText p)) (cp_originalText c)) \<and>
                           isFinal m = cp_isFinal c)) (p # ps) (?pk # pks)"
    using m(2-5) pks(2) by simp
  ultimately show ?case by blast
qed

lemma saveTranscript_effect:
  "meeting_translations (snd (saveTranscript d now m sp nm txt lang conf)) = meeting_translations d \<and>
   (fst (saveTranscript d now m sp nm txt lang conf) = None \<or>
    map_option tr_id (fst (saveTranscript d now m sp nm txt lang conf)) = Some (next_id d))"
proof -
  obtain ok d1 where a: "store_request d = (ok, d1)" by fastforce
  have "meeting_translations d1 = meeting_translations d" "next_id d1 = next_id d"
    using store_request_tables [of d] a by simp_all
  then show ?thesis using a by (cases ok) (simp_all add: saveTranscript_def Let_def)
qed

lemma processFinalTranscript_effect:
  assumes "processFinalTranscript w m sp nm t = (saved, w1)"
  shows "cfg w1 = cfg w \<and> clock w1 = clock w \<and> translationCache w1 = translationCache w \<and>
         translation_api w1 = translation_api w \<and> published w1 = published w \<and>
         meeting_translations (supabase w1) = meeting_translations (supabase w) \<and>
         (map_option tr_id saved = None \<or> map_option tr_id saved = Some (next_id (supabase w)))"
proof -
  obtain sv d1 where a:
    "saveTranscript (supabase w) (clock w) m sp nm (ts_text t) (ts_language t) (ts_confidence t) = (sv, d1)"
    by fastforce
  then have "saved = sv" "w1 = w\<lparr>supabase := d1\<rparr>"
    using assms by (simp_all add: processFinalTranscript_def)
  then show ?thesis
    using saveTranscript_effect
            [of "supabase w" "clock w" m sp nm "ts_text t" "ts_language t" "ts_confidence t"] a
    by auto
qed

lemma getMeetingLanguages_tables:
  "meeting_translations (snd (getMeetingLanguages d m)) = meeting_translations d"
proof -
  obtain ok d1 where a: "store_request d = (ok, d1)" by fastforce
  obtain ok2 d2 where b: "store_request d1 = (ok2, d2)" by fastforce
  have "meeting_translations d1 = meeting_translations d"
    using store_request_tables [of d] a by simp
  moreover have "meeting_translations d2 = meeting_translations d1"
    using store_request_tables [of d1] b by simp
  ultimately show ?thesis using a b
    by (cases ok; cases ok2) (simp_all add: getMeetingLanguages_def Let_def)
qed

lemma cached_only_transfer:
  assumes "cached_only w t s l (Some i) V"
    and "clock w' = clock w" "translationCache w' = translationCache w"
    and "meeting_translations (supabase w') = meeting_translations (supabase w)"
    and "tid = None \<or> tid = Some i"
  shows "cached_only w' t s l tid V"
  using assms by (auto simp: cached_only_def stored_translation_def)

text \<open>
  C1, as the code has it. A final transcript handled with the translation feature enabled
  and at least one listener language: let \<open>L\<close> and \<open>L2\<close> differ from the transcript's
  language, let the lookups for both miss (no live non-empty entry in the memory cache,
  no non-empty stored translation for the new transcript), let the translation service
  fail for \<open>L\<close> and answer a non-empty text \<open>tr\<close> for \<open>L2\<close>. Then \<open>handleFinalTranscript\<close>
  publishes exactly one caption per listener, in the listeners' order, each addressed to
  that listener alone and final; the listeners of \<open>L\<close> get the original text as translated
  text and the listeners of \<open>L2\<close> get \<open>tr\<close>. The handler has no error result: the failure
  for \<open>L\<close> is absorbed by \<open>translateText\<close>.
\<close>

theorem final_transcript_partial_failure:
  assumes "features_translation (cfg w)"
    and "processFinalTranscript w (ss_meetingId s) sp nm t = (saved, w1)"
    and "getMeetingLanguages (supabase w1) (ss_meetingId s) = (langs, d2)"
    and "langs \<noteq> []"
    and "ts_language t \<noteq> L" "ts_language t \<noteq> L2"
    and "cached_only w (ts_text t) (ts_language t) L (Some (next_id (supabase w))) {}"
    and "cached_only w (ts_text t) (ts_language t) L2 (Some (next_id (supabase w))) {}"
    and "fst (translate_via_service w (ts_text t) (ts_language t) L) = Inl e"
    and "fst (translate_via_service w (ts_text t) (ts_language t) L2) = Inr tr"
    and "tr \<noteq> []"
  shows "\<exists>pks. published (handleFinalTranscript w s sp nm t) = published w @ pks \<and>
           list_all2 (\<lambda>(u, l) pk.
               pk_room pk = room s \<and> pk_destination pk = Some [u] \<and>
               (\<exists>m. pk_payload pk = Caption m \<and> originalText m = ts_text t \<and>
                    targetLanguage m = Some l \<and> isFinal m \<and>
                    (l = L \<longrightarrow> translatedText m = Some (ts_text t)) \<and>
                    (l = L2 \<longrightarrow> translatedText m = Some tr))) langs pks"
proof -
  let ?T = "ts_text t" and ?S = "ts_language t"
  let ?tid = "map_option tr_id saved"
  let ?w2 = "w1\<lparr>supabase := d2\<rparr>"
  let ?c = "\<lparr>cp_meetingId = ss_meetingId s, cp_speakerId = sp, cp_speakerName = nm,
             cp_originalText = ?T, cp_originalLanguage = ?S,
             cp_translatedText = None, cp_targetLanguage = None,
             cp_isFinal = True, cp_confidence = ts_confidence t\<rparr>"
  have p: "cfg w1 = cfg w" "clock w1 = clock w" "translationCache w1 = translationCache w"
    "translation_api w1 = translation_api w" "published w1 = published w"
    "meeting_translations (supabase w1) = meeting_translations (supabase w)"
    "?tid = None \<or> ?tid = Some (next_id (supabase w))"
    using processFinalTranscript_effect [OF assms(2)] by simp_all
  have d2: "meeting_translations d2 = meeting_translations (supabase w)"
    using getMeetingLanguages_tables [of "supabase w1" "ss_meetingId s"] assms(3) p(6) by simp
  have c1: "cached_only ?w2 ?T ?S L ?tid {}"
    using p d2 by (intro cached_only_transfer [OF assms(7)]) simp_all
  have "cached_only ?w2 ?T ?S L2 ?tid {}"
    using p d2 by (intro cached_only_transfer [OF assms(8)]) simp_all
  then have c2: "cached_only ?w2 ?T ?S L2 ?tid {tr}"
    by (auto simp: cached_only_def intro: usable_within_mono)
  have env: "cfg ?w2 = cfg w" "translation_api ?w2 = translation_api w" using p by simp_all
  have o1: "fst (translate_via_service ?w2 ?T ?S L) = Inl e"
    using translate_via_service_frame [OF env, of ?T ?S L] assms(9) by simp
  have o2: "fst (translate_via_service ?w2 ?T ?S L2) = Inr tr"
    using translate_via_service_frame [OF env, of ?T ?S L2] assms(10) by simp
  obtain cs w3 where l: "translate_for_participants ?w2 t ?tid langs [] = (cs, w3)" by fastforce
  have cs: "list_all2 (\<lambda>p c. participantIdentity c = fst p \<and> pc_language c = snd p \<and>
                             (snd p = L \<longrightarrow> pc_translatedText c = ?T) \<and>
                             (snd p = L2 \<longrightarrow> pc_translatedText c = tr)) langs cs"
    using translate_for_participants_results [OF assms(5,6) c1 c2 o1 o2, of langs "[]"] l by simp
  have w3: "published w3 = published w"
    using translate_for_participants_published [of ?w2 t ?tid langs "[]"] l p(5) by simp
  have h: "handleFinalTranscript w s sp nm t = sendTranslatedCaptions_loop w3 (room s) ?c cs"
    using assms(1-4) l p(1)
    by (simp add: handleFinalTranscript_def Let_def sendTranslatedCaptions_def)
  obtain pks where pks: "published (sendTranslatedCaptions_loop w3 (room s) ?c cs) = published w3 @ pks"
    "list_all2 (\<lambda>p pk. pk_room pk = room s \<and> pk_destination pk = Some [participantIdentity p] \<and>
                      (\<exists>m. pk_payload pk = Caption m \<and>
                           originalText m = cp_originalText ?c \<and>
                           targetLanguage m = Some (pc_language p) \<and>
                           translatedText m =
                             Some (js_or (Some (pc_translatedText p)) (cp_originalText ?c)) \<and>
                           isFinal m = cp_isFinal ?c)) cs pks"
    using sendTranslatedCaptions_loop_published [of w3 "room s" ?c cs] by blast
  have j: "js_or (Some ?T) ?T = ?T" "js_or (Some tr) ?T = tr"
    using assms(11) by (simp_all add: js_or_def js_truthy_opt_def js_truthy_def)
  let ?P1 = "\<lambda>(p :: string \<times> string) (c :: participant_caption).
               participantIdentity c = fst p \<and> pc_language c = snd p \<and>
               (snd p = L \<longrightarrow> pc_translatedText c = ?T) \<and>
               (snd p = L2 \<longrightarrow> pc_translatedText c = tr)"
  let ?P2 = "\<lambda>(p :: participant_caption) (pk :: packet).
               pk_room pk = room s \<and> pk_destination pk = Some [participantIdentity p] \<and>
               (\<exists>m. pk_payload pk = Caption m \<and>
                    originalText m = cp_originalText ?c \<and>
                    targetLanguage m = Some (pc_language p) \<and>
                    translatedText m =
                      Some (js_or (Some (pc_translatedText p)) (cp_originalText ?c)) \<and>
                    isFinal m = cp_isFinal ?c)"
  let ?P3 = "\<lambda>(u, l) (pk :: packet).
               pk_room pk = room s \<and> pk_destination pk = Some [u] \<and>
               (\<exists>m. pk_payload pk = Caption m \<and> originalText m = ?T \<and>
                    targetLanguage m = Some l \<and> isFinal m \<and>
                    (l = L \<longrightarrow> translatedText m = Some ?T) \<and>
                    (l = L2 \<longrightarrow> translatedText m = Some tr))"
  have step: "?P1 a b \<Longrightarrow> ?P2 b pk \<Longrightarrow> ?P3 a pk" for a b pk
    using j by (cases a) auto
  have "list_all2 ?P3 langs pks"
    using list_all2_trans [of ?P1 ?P2 ?P3, OF step cs pks(2)] .
  then show ?thesis using h pks(1) w3 by auto
qed

lemmas example_defs =
  example_world_fanout_def example_world_def example_store_fanout_def example_config_def
  example_api_def example_session_m2_def example_final_def translationCache_new_def
  example_world_translation_off_def

lemmas run_defs =
  handleFinalTranscript_def processFinalTranscript_def saveTranscript_def store_request_def
  getMeetingLanguages_def preferred_language_of_def js_or_def js_truthy_opt_def js_truthy_def
  translateText_def translateText_lookup_def translateText_perform_def translate_via_service_def
  translateWithLibreTranslate_def axios_post_def cacheKey_def nc_get_def nc_set_def nc_expired_def
  saveTranslation_def getTranslation_def sendTranslatedCaptions_def sendCaptionToParticipant_def
  broadcastCaption_def uuidv4_def publishData_def delivered_text_def Let_def

lemma example_fanout_languages:
  "fst (getMeetingLanguages
          (supabase (snd (processFinalTranscript example_world_fanout ''m2'' ''A'' ''Alice''
                            example_final))) ''m2'')
     = [(''B'', ''hi''), (''C'', ''ta''), (''D'', ''de'')]"
  by (simp add: example_defs run_defs)

theorem final_transcript_partial_failure_witness:
  "cached_only example_world_fanout ''Hello everyone'' ''en'' ''hi'' (Some 0) {} \<and>
   cached_only example_world_fanout ''Hello everyone'' ''en'' ''ta'' (Some 0) {} \<and>
   fst (translate_via_service example_world_fanout ''Hello everyone'' ''en'' ''hi'')
     = Inl LibreTranslateFailed \<and>
   fst (translate_via_service example_world_fanout ''Hello everyone'' ''en'' ''ta'')
     = Inr ''Anaivarukkum vanakkam'' \<and>
   (\<exists>pks. published (handleFinalTranscript example_world_fanout example_session_m2 ''A'' ''Alice''
                        example_final) = pks \<and>
      list_all2 (\<lambda>(u, l) pk.
          pk_room pk = ''room-m2'' \<and> pk_destination pk = Some [u] \<and>
          (\<exists>m. pk_payload pk = Caption m \<and> originalText m = ''Hello everyone'' \<and>
               targetLanguage m = Some l \<and> isFinal m \<and>
               (l = ''hi'' \<longrightarrow> translatedText m = Some ''Hello everyone'') \<and>
               (l = ''ta'' \<longrightarrow> translatedText m = Some ''Anaivarukkum vanakkam'')))
        [(''B'', ''hi''), (''C'', ''ta''), (''D'', ''de'')] pks)"
proof -
  let ?w = example_world_fanout and ?s = example_session_m2 and ?t = example_final
  have s: "ss_meetingId ?s = ''m2''" "room ?s = ''room-m2''"
    "ts_text ?t = ''Hello everyone''" "ts_language ?t = ''en''"
    "published ?w = []" "next_id (supabase ?w) = 0" "features_translation (cfg ?w)"
    by (simp_all add: example_defs)
  have u1: "cached_only ?w ''Hello everyone'' ''en'' ''hi'' (Some 0) {}"
    and u2: "cached_only ?w ''Hello everyone'' ''en'' ''ta'' (Some 0) {}"
    by (simp_all add: cached_only_def cached_text_def stored_translation_def usable_within_def
        example_defs)
  have p1: "fst (translate_via_service ?w ''Hello everyone'' ''en'' ''hi'') = Inl LibreTranslateFailed"
    and p2: "fst (translate_via_service ?w ''Hello everyone'' ''en'' ''ta'') = Inr ''Anaivarukkum vanakkam''"
    by (simp_all add: translate_via_service_def translateWithLibreTranslate_def axios_post_def
        example_defs)
  obtain saved w1 where a: "processFinalTranscript ?w (ss_meetingId ?s) ''A'' ''Alice'' ?t = (saved, w1)"
    by fastforce
  obtain langs d2 where b: "getMeetingLanguages (supabase w1) (ss_meetingId ?s) = (langs, d2)"
    by fastforce
  have l: "langs = [(''B'', ''hi''), (''C'', ''ta''), (''D'', ''de'')]"
    using example_fanout_languages a b s(1) by simp
  have n: "langs \<noteq> []" "ts_language ?t \<noteq> ''hi''" "ts_language ?t \<noteq> ''ta''"
    "''Anaivarukkum vanakkam'' \<noteq> []"
    using l s(4) by simp_all
  from final_transcript_partial_failure
         [OF s(7) a b n(1,2,3) _ _ _ _ n(4), of LibreTranslateFailed]
       u1 u2 p1 p2 s l
  show ?thesis by simp
qed

text \<open>
  C1 as stated fails in two ways. With the translation feature disabled (the default of
  \<open>ENABLE_TRANSLATION\<close>) the original text is broadcast to everyone, so the listeners of a
  language the service would translate do not get the translation. With the feature
  enabled, a listener whose language the service answers with an empty text gets the
  original text (\<open>translatedText || caption.originalText\<close>), not the service's answer.
\<close>

theorem final_transcript_partial_failure_counterexample:
  "fst (translate_via_service example_world_translation_off ''Hello everyone'' ''en'' ''hi'')
     = Inl LibreTranslateFailed \<and>
   fst (translate_via_service example_world_translation_off ''Hello everyone'' ''en'' ''ta'')
     = Inr ''Anaivarukkum vanakkam'' \<and>
   map delivered_text
     (published (handleFinalTranscript example_world_translation_off example_session_m2 ''A''
                   ''Alice'' example_final))
     = [(None, Some ''Hello everyone'')] \<and>
   fst (translate_via_service example_world_fanout ''Hello everyone'' ''en'' ''hi'')
     = Inl LibreTranslateFailed \<and>
   fst (translate_via_service example_world_fanout ''Hello everyone'' ''en'' ''de'') = Inr [] \<and>
   map delivered_text
     (published (handleFinalTranscript example_world_fanout example_session_m2 ''A'' ''Alice''
                   example_final))
     = [(Some [''B''], Some ''Hello everyone''),
        (Some [''C''], Some ''Anaivarukkum vanakkam''),
        (Some [''D''], Some ''Hello everyone'')]"
  by (simp add: example_defs run_defs)

subsection \<open>Starting transcription\<close>

lemma map_entry_keys: "map fst (AList.map_entry k f al) = map fst al"
  by (induction al) auto

lemma createTranscriptionSession_state:
  "activeSessions (snd (createTranscriptionSession w options)) = activeSessions w \<and>
   cfg (snd (createTranscriptionSession w options)) = cfg w"
  by (simp add: createTranscriptionSession_def initializeDeepgram_def)

lemma handleAudioTrack_keys:
  "map fst (activeSessions (handleAudioTrack w s p)) = map fst (activeSessions w)"
proof -
  obtain r w1 where a:
    "createTranscriptionSession w \<lparr>ds_meetingId = ss_meetingId s, ds_language = Some ''en''\<rparr> = (r, w1)"
    by fastforce
  have "activeSessions w1 = activeSessions w"
    using createTranscriptionSession_state
            [of w "\<lparr>ds_meetingId = ss_meetingId s, ds_language = Some ''en''\<rparr>"] a by simp
  then show ?thesis using a
    by (cases r) (simp_all add: handleAudioTrack_def map_entry_keys)
qed

lemma subscribeToParticipant_keys:
  "map fst (activeSessions (subscribeToParticipant w s p)) = map fst (activeSessions w)"
proof -
  have "map fst (activeSessions (((\<lambda>w'. handleAudioTrack w' s p) ^^ n) w)) = map fst (activeSessions w)"
    for n
    by (induction n) (simp_all add: handleAudioTrack_keys)
  then show ?thesis by (simp add: subscribeToParticipant_def)
qed

lemma subscribe_all_keys:
  "map fst (activeSessions (fold (\<lambda>p w'. subscribeToParticipant w' s p) ps w)) =
     map fst (activeSessions w)"
  by (induction ps arbitrary: w) (simp_all add: subscribeToParticipant_keys)

lemma subscribe_all_cfg:
  "cfg (fold (\<lambda>p w'. subscribeToParticipant w' s p) ps w) = cfg w"
proof -
  have h: "cfg (handleAudioTrack w' s p) = cfg w'" for w' p
  proof -
    obtain r w1 where a:
      "createTranscriptionSession w' \<lparr>ds_meetingId = ss_meetingId s, ds_language = Some ''en''\<rparr> = (r, w1)"
      by fastforce
    have "cfg w1 = cfg w'"
      using createTranscriptionSession_state
              [of w' "\<lparr>ds_meetingId = ss_meetingId s, ds_language = Some ''en''\<rparr>"] a by simp
    then show ?thesis using a by (cases r) (simp_all add: handleAudioTrack_def)
  qed
  have f: "cfg (((\<lambda>w'. handleAudioTrack w' s p) ^^ n) w') = cfg w'" for n w' p
    by (induction n) (simp_all add: h)
  show ?thesis
    by (induction ps arbitrary: w) (simp_all add: subscribeToParticipant_def f)
qed

lemma sendSystemMessage_state:
  "activeSessions (snd (sendSystemMessage w rm msg ids)) = activeSessions w \<and>
   cfg (snd (sendSystemMessage w rm msg ids)) = cfg w"
  by (simp add: sendSystemMessage_def uuidv4_def publishData_def split: list.splits)

lemma startTranscription_success:
  assumes "startTranscription w meeting rm c = (r, w1)" "success r"
  shows "features_transcription (cfg w1) \<and>
         meeting \<notin> set (map fst (activeSessions w)) \<and>
         map fst (activeSessions w1) = map fst (activeSessions w) @ [meeting]"
proof -
  have f: "features_transcription (cfg w)" and n: "meeting \<notin> set (map fst (activeSessions w))"
    using assms by (auto simp: startTranscription_def split: if_splits)
  obtain ps where c: "c = Connected ps"
    using assms f n by (cases c) (auto simp: startTranscription_def)
  let ?w1 = "snd (sendSystemMessage w rm ''Live transcription started'' None)"
  let ?s = "\<lparr>room = rm, ss_meetingId = meeting, transcriptionSessions = [],
             participantLanguages = []\<rparr>"
  let ?w2 = "?w1\<lparr>activeSessions := AList.update meeting ?s (activeSessions ?w1)\<rparr>"
  have w1: "w1 = fold (\<lambda>p w'. subscribeToParticipant w' ?s p) ps ?w2"
    using assms(1) f n c by (simp add: startTranscription_def Let_def)
  have k: "map fst (activeSessions ?w2) = map fst (activeSessions w) @ [meeting]"
    using n sendSystemMessage_state [of w rm "''Live transcription started''" None]
    by (simp add: alist_update_fresh)
  have "cfg ?w2 = cfg w"
    using sendSystemMessage_state [of w rm "''Live transcription started''" None] by simp
  then show ?thesis using w1 k f n by (simp add: subscribe_all_keys subscribe_all_cfg)
qed

text \<open>
  C6, as the code has it. When a call \<open>start(M)\<close> has succeeded, a second \<open>start(M)\<close>
  (no \<open>stop\<close> in between) is rejected with \<open>{ success: false, message: 'Already
  transcribing' }\<close> whatever the room connection would do, it leaves the state as it is,
  and the registry of active sessions holds exactly one session for \<open>M\<close>.
\<close>

theorem start_twice_already_active:
  assumes "startTranscription w M rm c = (r1, w1)" and "success r1"
  shows "startTranscription w1 M rm' c' =
           (\<lparr>success = False, message = ''Already transcribing''\<rparr>, w1) \<and>
         count_list (getActiveSessions w1) M = 1"
proof -
  have s: "features_transcription (cfg w1)" "M \<notin> set (map fst (activeSessions w))"
    "map fst (activeSessions w1) = map fst (activeSessions w) @ [M]"
    using startTranscription_success [OF assms] by simp_all
  have "count_list (map fst (activeSessions w)) M = 0"
    using s(2) by (simp add: count_list_0_iff)
  then show ?thesis using s by (simp add: startTranscription_def getActiveSessions_def)
qed

theorem start_twice_already_active_witness:
  "success (fst (startTranscription example_world ''m1'' ''room-m1'' (Connected [example_speaker]))) \<and>
   fst (startTranscription
          (snd (startTranscription example_world ''m1'' ''room-m1'' (Connected [example_speaker])))
          ''m1'' ''room-m1'' (Connected [example_speaker]))
     = \<lparr>success = False, message = ''Already transcribing''\<rparr> \<and>
   count_list (getActiveSessions
      (snd (startTranscription example_world ''m1'' ''room-m1'' (Connected [example_speaker])))) ''m1'' = 1"
proof -
  obtain r1 w1 where a:
    "startTranscription example_world ''m1'' ''room-m1'' (Connected [example_speaker]) = (r1, w1)"
    by fastforce
  have "r1 = \<lparr>success = True, message = ''Transcription started''\<rparr>"
    using a by (simp add: startTranscription_def example_world_def example_config_def Let_def)
  then have b: "success r1" by simp
  from start_twice_already_active [OF a b, of "''room-m1''" "Connected [example_speaker]"] a b
  show ?thesis by simp
qed

text \<open>
  C6 as stated fails when the first call did not succeed: after a first \<open>start(M)\<close> whose
  room connection failed, the second \<open>start(M)\<close> is accepted.
\<close>

theorem start_twice_counterexample:
  "fst (startTranscription example_world ''m1'' ''room-m1'' (ConnectFailed ''connect timeout''))
     = \<lparr>success = False, message = ''connect timeout''\<rparr> \<and>
   fst (startTranscription
          (snd (startTranscription example_world ''m1'' ''room-m1'' (ConnectFailed ''connect timeout'')))
          ''m1'' ''room-m1'' (Connected []))
     = \<lparr>success = True, message = ''Transcription started''\<rparr>"
  by (simp add: startTranscription_def example_world_def example_config_def Let_def)

subsection \<open>Recognizer disconnects\<close>

text \<open>
  C2, what the code does: the \<open>Close\<close> and \<open>Error\<close> handlers of a recognizer connection
  write a log line and nothing else. After an unexpected disconnect no connection is
  opened again (\<open>live_connections\<close> is unchanged: there is no retry and no backoff), the
  session has no state to move to \<open>failed\<close>, and nothing is published, so no
  degraded-service notice reaches the room.
\<close>

theorem disconnect_only_logged:
  "agent_connection_on s p w Close = w \<and> agent_connection_on s p w (Error msg) = w \<and>
   live_connections (agent_connection_on s p w Close) = live_connections w \<and>
   published (agent_connection_on s p w Close) = published w"
  by (simp add: agent_connection_on_def connection_on_def)


end
